theory Spec2Isabelle
  imports Main "HOL-Library.Monad_Syntax"
begin

section \<open>Tensors\<close>

text \<open>
  The detection head of \<^verbatim>\<open>faster_rcnn.py\<close> works on TensorFlow tensors. A tensor of rank
  \<open>r\<close> is modelled as an \<open>r\<close>-fold nested list in row-major order; a trailing axis of
  size 4 (a box or a delta, \<open>[y1, x1, y2, x2]\<close>) is the datatype \<open>box\<close>, so that a tensor
  of shape \<open>(batch, n, 4)\<close> is a \<open>box list list\<close>. Index tensors (\<open>tf.int32\<close>) hold
  \<open>int\<close>; a row of an index tensor of shape \<open>(k, 2)\<close> or \<open>(k, 3)\<close> is a pair or a triple.
  The element type of the float tensors is a type parameter: no theorem below depends
  on floating-point arithmetic, which stays inside the parameters \<open>decode_box\<close>,
  \<open>encode_box\<close>, \<open>iou\<close> and \<open>crop\<close>. The element type is ordered where scores are
  compared, and has a zero and an addition where \<^verbatim>\<open>tf.scatter_nd\<close> sums the updates
  of one index; in the layers no two updates share an index, so every such sum has at
  most one term.

  Every TensorFlow operation that raises \<^verbatim>\<open>InvalidArgumentError\<close> (a reshape to a
  shape of another size, operands of different shapes, an index out of range in the
  CPU kernels of gather and scatter, an arg-max over an empty axis) returns \<open>None\<close>;
  \<open>Some\<close> is a normal return.
\<close>

datatype 'a box = Box (box_y1: 'a) (box_x1: 'a) (box_y2: 'a) (box_x2: 'a)

instantiation box :: (zero) zero
begin
definition zero_box_def: "0 = Box 0 0 0 0"
instance ..
end

instantiation box :: (plus) plus
begin
definition plus_box_def:
  "p + q = Box (box_y1 p + box_y1 q) (box_x1 p + box_x1 q) (box_y2 p + box_y2 q) (box_x2 p + box_x2 q)"
instance ..
end

instance box :: (comm_monoid_add) comm_monoid_add
proof
  fix a b c :: "'a box"
  show "a + b + c = a + (b + c)"
    by (simp add: plus_box_def add.assoc)
  show "a + b = b + a"
    by (simp add: plus_box_def add.commute)
  show "0 + a = a"
    by (simp add: plus_box_def zero_box_def)
qed

fun flat_of_box :: "'a box \<Rightarrow> 'a list" where
  "flat_of_box (Box a b c d) = [a, b, c, d]"

fun boxes_of_flat :: "'a list \<Rightarrow> 'a box list" where
  "boxes_of_flat (a # b # c # d # xs) = Box a b c d # boxes_of_flat xs"
| "boxes_of_flat _ = []"

subsection \<open>Gradients\<close>

text \<open>
  Where differentiation matters, an element of a float tensor is a dual number: the
  value together with its tangent, the derivative of the value along a direction of
  the network inputs (forward mode; the reverse-mode gradient that TensorFlow
  propagates through an element is zero for every loss exactly when the tangent of the
  element is zero for every direction). Sums and zeros are component-wise.
  \<^verbatim>\<open>tf.stop_gradient\<close> keeps the value and clears the tangent.

  The layers below take the operation on their float element type as the parameter
  \<open>stop_gradient\<close>: it is \<open>tf_stop_gradient\<close> on dual numbers, and the identity on an
  element type that carries no tangent. The index and label tensors are \<^verbatim>\<open>tf.int32\<close>,
  modelled by \<open>int\<close>: an integer element carries no tangent, and
  \<^verbatim>\<open>tf.stop_gradient\<close> is the identity on it.
\<close>

datatype 'v dual = Dual (primal: 'v) (tangent: 'v)

instantiation dual :: (zero) zero
begin
definition zero_dual_def: "0 = Dual 0 0"
instance ..
end

instantiation dual :: (plus) plus
begin
definition plus_dual_def:
  "p + q = Dual (primal p + primal q) (tangent p + tangent q)"
instance ..
end

instance dual :: (comm_monoid_add) comm_monoid_add
proof
  fix a b c :: "'a dual"
  show "a + b + c = a + (b + c)"
    by (simp add: plus_dual_def add.assoc)
  show "a + b = b + a"
    by (simp add: plus_dual_def add.commute)
  show "0 + a = a"
    by (simp add: plus_dual_def zero_dual_def)
qed

definition tf_stop_gradient :: "'v::zero dual \<Rightarrow> 'v dual" where
  "tf_stop_gradient x = Dual (primal x) 0"

text \<open>A computation over a list that stops at the first error.\<close>

fun mapM_option :: "('a \<Rightarrow> 'b option) \<Rightarrow> 'a list \<Rightarrow> 'b list option" where
  "mapM_option f [] = Some []"
| "mapM_option f (x # xs) = do { y \<leftarrow> f x; ys \<leftarrow> mapM_option f xs; Some (y # ys) }"

text \<open>The size of axis 1, as \<^verbatim>\<open>tf.shape(x)[1]\<close> reads it (0 for an empty batch).\<close>

definition dim1 :: "'a list list \<Rightarrow> nat" where
  "dim1 xs = (case xs of [] \<Rightarrow> 0 | x # _ \<Rightarrow> length x)"

text \<open>
  \<^verbatim>\<open>tf.reshape(t, (b, n))\<close> and \<^verbatim>\<open>tf.reshape(t, (b, n, 4))\<close> on the row-major
  values \<open>flat\<close> of \<open>t\<close>: the number of values must be the size of the new shape.
\<close>

definition tf_reshape2 :: "'a list \<Rightarrow> nat \<Rightarrow> nat \<Rightarrow> 'a list list option" where
  "tf_reshape2 flat b n =
     (if length flat = b * n
      then Some (map (\<lambda>i. take n (drop (i * n) flat)) [0..<b])
      else None)"

definition tf_reshape_boxes :: "'a list \<Rightarrow> nat \<Rightarrow> nat \<Rightarrow> 'a box list list option" where
  "tf_reshape_boxes flat b n =
     (if length flat = b * n * 4
      then Some (map (\<lambda>i. boxes_of_flat (take (n * 4) (drop (i * (n * 4)) flat))) [0..<b])
      else None)"

text \<open>Inserting a singleton axis before the last one never fails.\<close>

definition singleton_axis :: "'a list list \<Rightarrow> 'a list list list" where
  "singleton_axis t = map (map (\<lambda>x. [x])) t"

definition tf_zeros_boxes :: "nat \<Rightarrow> nat \<Rightarrow> 'a::zero box list list" where
  "tf_zeros_boxes b n = replicate b (replicate n 0)"

definition tf_fill2 :: "nat \<Rightarrow> nat \<Rightarrow> 'a \<Rightarrow> 'a list list" where
  "tf_fill2 b n v = replicate b (replicate n v)"

definition tf_ones2 :: "nat \<Rightarrow> nat \<Rightarrow> int list list" where
  "tf_ones2 b n = replicate b (replicate n 1)"

definition tf_range :: "nat \<Rightarrow> int list" where
  "tf_range n = map int [0..<n]"

text \<open>\<^verbatim>\<open>tf.tile(v, (k,))\<close>: the vector \<open>v\<close> repeated \<open>k\<close> times.\<close>

definition tf_tile :: "'a list \<Rightarrow> nat \<Rightarrow> 'a list" where
  "tf_tile v k = concat (replicate k v)"

text \<open>
  \<^verbatim>\<open>tf.gather(params, indices, batch_dims=1)\<close>: \<open>out[b][j] = params[b][indices[b][j]]\<close>.
  The batch sizes must agree and every index must lie in \<open>[0, len(params[b]))\<close>.
\<close>

definition gather_row :: "'a list \<Rightarrow> int list \<Rightarrow> 'a list option" where
  "gather_row xs is =
     mapM_option (\<lambda>i. if 0 \<le> i \<and> i < int (length xs) then Some (xs ! nat i) else None) is"

definition tf_gather_batch :: "'a list list \<Rightarrow> int list list \<Rightarrow> 'a list list option" where
  "tf_gather_batch params indices =
     (if length params = length indices
      then mapM_option (\<lambda>(p, is). gather_row p is) (zip params indices)
      else None)"

text \<open>
  \<^verbatim>\<open>tf.gather_nd(params, indices)\<close> with \<open>indices\<close> of shape \<open>(k, 2)\<close>:
  \<open>out[j] = params[indices[j][0]][indices[j][1]]\<close>.
\<close>

definition tf_gather_nd2 :: "'a list list \<Rightarrow> (int \<times> int) list \<Rightarrow> 'a list option" where
  "tf_gather_nd2 params indices =
     mapM_option (\<lambda>(b, i).
        if 0 \<le> b \<and> b < int (length params) \<and> 0 \<le> i \<and> i < int (length (params ! nat b))
        then Some (params ! nat b ! nat i) else None) indices"

text \<open>\<^verbatim>\<open>tf.concat([a, b], axis=1)\<close>: the batch sizes must agree.\<close>

definition tf_concat_axis1 :: "'a list list \<Rightarrow> 'a list list \<Rightarrow> 'a list list option" where
  "tf_concat_axis1 a b =
     (if length a = length b then Some (map (\<lambda>(r, s). r @ s) (zip a b)) else None)"

text \<open>
  \<^verbatim>\<open>tf.argmax(t, 2)\<close> on a tensor of rank 3: in every row the index of the first
  largest value (among equal largest values the kernels return the smallest index).
  An empty class axis is an error, also when the tensor has no row at all. A nested
  list does not show the size of an axis behind an empty one, so the tensor is the
  pair \<open>(axis2, rows)\<close> of the size of its class axis and its rows, each of \<open>axis2\<close>
  values. The order of the element type stands for the order of the scores.
\<close>

definition argmax_row :: "'a::linorder list \<Rightarrow> int option" where
  "argmax_row xs =
     (if xs = [] then None
      else Some (int (length (takeWhile (\<lambda>x. x \<noteq> Max (set xs)) xs))))"

definition tf_argmax_axis2 :: "nat \<times> 'a::linorder list list list \<Rightarrow> int list list option" where
  "tf_argmax_axis2 t =
     (case t of (axis2, rows) \<Rightarrow>
        if axis2 = 0 then None else mapM_option (mapM_option argmax_row) rows)"

text \<open>
  \<^verbatim>\<open>tf.where(cond)\<close> on a boolean tensor of rank 2: the coordinates of the true
  entries, in row-major order.
\<close>

definition tf_where2 :: "bool list list \<Rightarrow> (int \<times> int) list" where
  "tf_where2 cond =
     concat (map (\<lambda>b. map (\<lambda>i. (int b, int i)) (filter (\<lambda>i. cond ! b ! i) [0..<length (cond ! b)]))
                 [0..<length cond])"

text \<open>
  \<^verbatim>\<open>tf.scatter_nd(indices, updates, shape)\<close>: a tensor of zeros of the given shape to
  which every update is added at its index (updates at one index add up). The
  updates must have the shape of the index tensor without its last axis, and every
  index must lie inside the shape. \<open>tf_scatter_nd2\<close> takes indices of shape \<open>(k, 2)\<close>,
  \<open>tf_scatter_nd3\<close> indices of shape \<open>(b, n, 3)\<close>.
\<close>

definition tf_scatter_nd2 ::
  "(int \<times> int) list \<Rightarrow> 'u::comm_monoid_add list \<Rightarrow> nat \<Rightarrow> nat \<Rightarrow> 'u list list option" where
  "tf_scatter_nd2 indices updates d0 d1 =
     (if length updates = length indices \<and>
         list_all (\<lambda>(a, c). 0 \<le> a \<and> a < int d0 \<and> 0 \<le> c \<and> c < int d1) indices
      then Some (map (\<lambda>a. map (\<lambda>c.
              sum_list (map snd (filter (\<lambda>(ix, u). ix = (int a, int c)) (zip indices updates))))
              [0..<d1]) [0..<d0])
      else None)"

definition tf_scatter_nd3 ::
  "(int \<times> int \<times> int) list list \<Rightarrow> 'u::comm_monoid_add list list \<Rightarrow> nat \<Rightarrow> nat \<Rightarrow> nat
     \<Rightarrow> 'u list list list option" where
  "tf_scatter_nd3 indices updates d0 d1 d2 =
     (if map length updates = map length indices \<and>
         list_all (\<lambda>(a, b, c). 0 \<le> a \<and> a < int d0 \<and> 0 \<le> b \<and> b < int d1 \<and> 0 \<le> c \<and> c < int d2)
           (concat indices)
      then Some (map (\<lambda>a. map (\<lambda>b. map (\<lambda>c.
              sum_list (map snd (filter (\<lambda>(ix, u). ix = (int a, int b, int c))
                                        (zip (concat indices) (concat updates)))))
              [0..<d2]) [0..<d1]) [0..<d0])
      else None)"

text \<open>
  \<^verbatim>\<open>tf.image.crop_and_resize(image, boxes, box_indices, crop_size)\<close>: crop \<open>j\<close> is
  taken from image \<open>box_indices[j]\<close> inside \<open>boxes[j]\<close> and resized to \<open>crop_size\<close>.
  The bilinear resampling of one box from one image is the parameter \<open>crop\<close>.
\<close>

definition tf_image_crop_and_resize ::
  "('f \<Rightarrow> 'a box \<Rightarrow> nat \<times> nat \<Rightarrow> 'p) \<Rightarrow> 'f list \<Rightarrow> 'a box list \<Rightarrow> int list \<Rightarrow> nat \<times> nat
     \<Rightarrow> 'p list option" where
  "tf_image_crop_and_resize crop imgs boxes box_indices crop_size =
     (if length boxes = length box_indices
      then mapM_option (\<lambda>(bx, i).
             if 0 \<le> i \<and> i < int (length imgs) then Some (crop (imgs ! nat i) bx crop_size)
             else None) (zip boxes box_indices)
      else None)"

section \<open>Hyper-parameters\<close>

text \<open>
  The dictionary \<^verbatim>\<open>hyper_params\<close>, with the keys the three layers read; the field
  \<open>hp_k\<close> is the entry \<^verbatim>\<open>hyper_params["k"]\<close>.
\<close>

record hyper_params =
  hp_total_pos_bboxes :: nat
  hp_total_neg_bboxes :: nat
  hp_nms_topn :: nat
  hp_total_labels :: nat
  hp_pooling_size :: "nat \<times> nat"

section \<open>Helpers\<close>

text \<open>
  Modelled from the spec: \<^verbatim>\<open>helpers.get_bboxes_from_deltas\<close> is not among the sources.
  Section 4.2 describes it as the Geometry Kernel's \<open>decode\<close> applied with batch and
  shape bookkeeping: reference boxes and deltas of one shape \<open>(batch, N, 4)\<close> give
  absolute boxes of that shape, box by box. The arithmetic of one box (floating point:
  \<open>exp\<close>, clamping) is the parameter \<open>decode_box reference delta\<close>.
\<close>

definition get_bboxes_from_deltas ::
  "('a box \<Rightarrow> 'a box \<Rightarrow> 'a box) \<Rightarrow> 'a box list list \<Rightarrow> 'a box list list
     \<Rightarrow> 'a box list list option" where
  "get_bboxes_from_deltas decode_box anchors deltas =
     (if map length anchors = map length deltas
      then Some (map (\<lambda>(as, ds). map (\<lambda>(a, d). decode_box a d) (zip as ds)) (zip anchors deltas))
      else None)"

text \<open>
  Modelled from the spec: \<^verbatim>\<open>helpers.get_deltas_from_bboxes\<close> is not among the sources.
  It is the Geometry Kernel's \<open>encode\<close> of section 4.1, applied to the proposal boxes
  and the target boxes of one shape, box by box; the arithmetic of one box (floating
  point: division, \<open>log\<close>) is the parameter \<open>encode_box reference target\<close>.
\<close>

definition get_deltas_from_bboxes ::
  "('a box \<Rightarrow> 'a box \<Rightarrow> 'a box) \<Rightarrow> 'a box list list \<Rightarrow> 'a box list list
     \<Rightarrow> 'a box list list option" where
  "get_deltas_from_bboxes encode_box bboxes gt_boxes =
     (if map length bboxes = map length gt_boxes
      then Some (map (\<lambda>(bs, gs). map (\<lambda>(b, g). encode_box b g) (zip bs gs)) (zip bboxes gt_boxes))
      else None)"

text \<open>
  Modelled from the spec: \<^verbatim>\<open>helpers.get_gt_boxes_map\<close> is not among the sources.
  Section 4.4, step 1: every positive slot gets its matched ground-truth box through
  the GT Index Map; the \<open>total_neg_bboxes\<close> negative slots of every image follow, as
  the zero-filled placeholder boxes of section 3.
\<close>

definition get_gt_boxes_map ::
  "'a::zero box list list \<Rightarrow> int list list \<Rightarrow> nat \<Rightarrow> nat \<Rightarrow> 'a box list list option" where
  "get_gt_boxes_map gt_boxes gt_box_indices batch_size total_neg_bboxes =
     do {
       pos_gt_boxes_map \<leftarrow> tf_gather_batch gt_boxes gt_box_indices;
       tf_concat_axis1 pos_gt_boxes_map (tf_zeros_boxes batch_size total_neg_bboxes)
     }"

text \<open>
  Modelled from the spec: \<^verbatim>\<open>helpers.get_tiled_indices\<close> is not among the sources.
  Sections 4.5 and 9: the flat batched operations address row \<open>b * row_size + i\<close> for
  box \<open>i\<close> of image \<open>b\<close>; the tiled indices give every such row its image \<open>b\<close>
  (a column of shape \<open>(batch_size * row_size, 1)\<close>, here without its singleton axis).
\<close>

definition get_tiled_indices :: "nat \<Rightarrow> nat \<Rightarrow> int list" where
  "get_tiled_indices batch_size row_size =
     concat (map (\<lambda>b. replicate row_size (int b)) [0..<batch_size])"

text \<open>
  Modelled from the spec: \<^verbatim>\<open>helpers.get_scatter_indices_for_bboxes\<close> is not among the
  sources. Section 4.4, step 3, and section 9: the three index columns (image, slot,
  assigned class), each of one entry per flat row, are put side by side and laid out
  as \<open>(batch_size, total_bboxes, 3)\<close>.
\<close>

definition get_scatter_indices_for_bboxes ::
  "int list \<times> int list \<times> int list \<Rightarrow> nat \<Rightarrow> nat \<Rightarrow> (int \<times> int \<times> int) list list option" where
  "get_scatter_indices_for_bboxes flatted_indices batch_size total_bboxes =
     (case flatted_indices of (c0, c1, c2) \<Rightarrow>
        if length c0 = length c1 \<and> length c1 = length c2
        then tf_reshape2 (zip c0 (zip c1 c2)) batch_size total_bboxes
        else None)"

text \<open>
  Modelled from the spec: \<^verbatim>\<open>helpers.non_max_suppression\<close> is not among the sources.
  Section 4.3, step 2: the suppression runs on every image alone, with one class; the
  candidates are ranked by score, highest first; a candidate is suppressed when its
  IoU with a candidate already kept exceeds the threshold; at most \<open>topn\<close> candidates
  are kept, and the result is padded with zero boxes to \<open>topn\<close> entries. The IoU of
  two boxes (floating point) is the parameter \<open>iou\<close>, the threshold the parameter
  \<open>thr\<close>. The tensors have the class axis of size 1 that the layer gives them.
\<close>

fun nms_keep ::
  "('a box \<Rightarrow> 'a box \<Rightarrow> 'r::linorder) \<Rightarrow> 'r \<Rightarrow> nat \<Rightarrow> 'a box list \<Rightarrow> 'a box list
     \<Rightarrow> 'a box list" where
  "nms_keep iou thr topn kept [] = kept"
| "nms_keep iou thr topn kept (c # cs) =
     (if topn \<le> length kept then kept
      else if list_ex (\<lambda>k. thr < iou k c) kept then nms_keep iou thr topn kept cs
      else nms_keep iou thr topn (kept @ [c]) cs)"

text \<open>
  Modelled from the spec: the survivors of one image (section 4.3, step 2), from its
  boxes and their scores; the candidates are taken by descending score.
\<close>

definition nms_survivors ::
  "('a box \<Rightarrow> 'a box \<Rightarrow> 'r::linorder) \<Rightarrow> 'r \<Rightarrow> nat \<Rightarrow> 'a box list \<Rightarrow> 's::linorder list
     \<Rightarrow> 'a box list" where
  "nms_survivors iou thr topn boxes scores =
     nms_keep iou thr topn [] (map snd (rev (sort_key fst (zip scores boxes))))"

text \<open>
  Modelled from the spec: the result for one image, the survivors padded with zero
  boxes to \<open>topn\<close> entries ("zero-padding if fewer exist").
\<close>

definition nms_image ::
  "('a::zero box \<Rightarrow> 'a box \<Rightarrow> 'r::linorder) \<Rightarrow> 'r \<Rightarrow> nat \<Rightarrow> 'a box list \<Rightarrow> 's::linorder list
     \<Rightarrow> 'a box list" where
  "nms_image iou thr topn boxes scores =
     (let kept = nms_survivors iou thr topn boxes scores
      in kept @ replicate (topn - length kept) 0)"

text \<open>
  Modelled from the spec: the suppression of a batch, every image alone; with one
  class, the two size limits of the call bound the same count.
\<close>

definition non_max_suppression ::
  "('a::zero box \<Rightarrow> 'a box \<Rightarrow> 'r::linorder) \<Rightarrow> 'r \<Rightarrow> 'a box list list list
     \<Rightarrow> 's::linorder list list list \<Rightarrow> nat \<Rightarrow> nat \<Rightarrow> 'a box list list" where
  "non_max_suppression iou thr pred_bboxes pred_labels max_output_size_per_class max_total_size =
     map (\<lambda>(bs, ss). nms_image iou thr (min max_output_size_per_class max_total_size)
                        (concat bs) (concat ss))
         (zip pred_bboxes pred_labels)"




section \<open>Proposal Selector: \<^verbatim>\<open>RoIBBox.call\<close>\<close>

text \<open>
  The helpers \<^verbatim>\<open>helpers.non_max_suppression\<close> and \<^verbatim>\<open>helpers.get_selected_indices\<close>
  are not among the sources; the layer takes them as the parameters \<open>nms\<close> (its first
  result, the suppressed boxes) and \<open>select\<close> (the triple of positive indices, negative
  indices and ground-truth indices). The models \<open>non_max_suppression\<close> and
  \<open>get_selected_indices\<close> above are one value of \<open>nms\<close> and of \<open>select\<close>.
\<close>

type_synonym 'a nms_fun =
  "'a box list list list \<Rightarrow> 'a list list list \<Rightarrow> nat \<Rightarrow> nat \<Rightarrow> 'a box list list"

type_synonym 'a select_fun =
  "'a box list list \<Rightarrow> 'a box list list \<Rightarrow> nat \<Rightarrow> nat
     \<Rightarrow> int list list \<times> int list list \<times> int list list"

type_synonym 'a roibbox_inputs =
  "'a list list list list \<times> 'a list list list list \<times> 'a box list list \<times> 'a box list list"

text \<open>
  Lines 48 to 54: the reshapes and the decoding. The results are the decoded boxes of
  shape \<open>(batch_size, total_anchors, 1, 4)\<close> and the scores of shape
  \<open>(batch_size, total_anchors, 1)\<close>.
\<close>

definition RoIBBox_rpn_bboxes ::
  "('a box \<Rightarrow> 'a box \<Rightarrow> 'a box) \<Rightarrow> 'a roibbox_inputs
     \<Rightarrow> ('a box list list list \<times> 'a list list list) option" where
  "RoIBBox_rpn_bboxes decode_box inputs =
     (case inputs of (rpn_bbox_deltas, rpn_labels, anchors, gt_boxes) \<Rightarrow>
        let batch_size = length anchors;
            total_anchors = dim1 anchors
        in do {
          rpn_bbox_deltas' \<leftarrow>
            tf_reshape_boxes (concat (concat (concat rpn_bbox_deltas))) batch_size total_anchors;
          rpn_labels' \<leftarrow>
            tf_reshape2 (concat (concat (concat rpn_labels))) batch_size total_anchors;
          rpn_bboxes \<leftarrow> get_bboxes_from_deltas decode_box anchors rpn_bbox_deltas';
          Some (singleton_axis rpn_bboxes, singleton_axis rpn_labels')
        })"

text \<open>Lines 55 to 57: the suppression, with \<^verbatim>\<open>nms_topn\<close> for both size limits.\<close>

definition RoIBBox_nms_bboxes ::
  "('a box \<Rightarrow> 'a box \<Rightarrow> 'a box) \<Rightarrow> 'a nms_fun \<Rightarrow> hyper_params \<Rightarrow> 'a roibbox_inputs
     \<Rightarrow> 'a box list list option" where
  "RoIBBox_nms_bboxes decode_box nms hp inputs =
     do {
       (rpn_bboxes, rpn_labels) \<leftarrow> RoIBBox_rpn_bboxes decode_box inputs;
       Some (nms rpn_bboxes rpn_labels (hp_nms_topn hp) (hp_nms_topn hp))
     }"

text \<open>
  Lines 39 to 64: the whole layer. Line 64 stops the gradient of every element of the
  Proposal Batch; the GT Index Map is an integer tensor.
\<close>

definition RoIBBox_call ::
  "('a \<Rightarrow> 'a) \<Rightarrow> ('a::zero box \<Rightarrow> 'a box \<Rightarrow> 'a box) \<Rightarrow> 'a nms_fun \<Rightarrow> 'a select_fun
     \<Rightarrow> hyper_params \<Rightarrow> 'a roibbox_inputs \<Rightarrow> ('a box list list \<times> int list list) option" where
  "RoIBBox_call stop_gradient decode_box nms select hp inputs =
     (case inputs of (rpn_bbox_deltas, rpn_labels, anchors, gt_boxes) \<Rightarrow>
        let total_pos_bboxes = hp_total_pos_bboxes hp;
            total_neg_bboxes = hp_total_neg_bboxes hp;
            batch_size = length anchors
        in do {
          nms_bboxes \<leftarrow> RoIBBox_nms_bboxes decode_box nms hp inputs;
          case select nms_bboxes gt_boxes total_pos_bboxes total_neg_bboxes of
            (pos_bbox_indices, neg_bbox_indices, gt_box_indices) \<Rightarrow> do {
              pos_roi_bboxes \<leftarrow> tf_gather_batch nms_bboxes pos_bbox_indices;
              let neg_roi_bboxes = tf_zeros_boxes batch_size total_neg_bboxes;
              roi_bboxes \<leftarrow> tf_concat_axis1 pos_roi_bboxes neg_roi_bboxes;
              Some (map (map (map_box stop_gradient)) roi_bboxes, gt_box_indices)
            }
        })"

section \<open>Target Assigner: \<^verbatim>\<open>RoIDelta.call\<close>\<close>

type_synonym 'a roidelta_inputs =
  "'a box list list \<times> 'a box list list \<times> int list list \<times> int list list"

text \<open>
  Lines 94 to 106: the ground-truth box of every slot, the label of every slot and
  the regression delta of every slot.
\<close>

definition RoIDelta_targets ::
  "('a::zero box \<Rightarrow> 'a box \<Rightarrow> 'a box) \<Rightarrow> hyper_params \<Rightarrow> 'a roidelta_inputs
     \<Rightarrow> ('a box list list \<times> int list list \<times> 'a box list list) option" where
  "RoIDelta_targets encode_box hp inputs =
     (case inputs of (roi_bboxes, gt_boxes, gt_labels, gt_box_indices) \<Rightarrow>
        let total_labels = hp_total_labels hp;
            total_neg_bboxes = hp_total_neg_bboxes hp;
            batch_size = length roi_bboxes
        in do {
          gt_boxes_map \<leftarrow> get_gt_boxes_map gt_boxes gt_box_indices batch_size total_neg_bboxes;
          pos_gt_labels_map \<leftarrow> tf_gather_batch gt_labels gt_box_indices;
          let neg_gt_labels_map = tf_fill2 batch_size total_neg_bboxes (int total_labels - 1);
          gt_labels_map \<leftarrow> tf_concat_axis1 pos_gt_labels_map neg_gt_labels_map;
          roi_bbox_deltas \<leftarrow> get_deltas_from_bboxes encode_box roi_bboxes gt_boxes_map;
          Some (gt_boxes_map, gt_labels_map, roi_bbox_deltas)
        })"

text \<open>
  Lines 89 to 116: the whole layer. The reshape of line 113 joins the last two axes
  \<open>(total_labels, 4)\<close> and cannot fail. Line 116 stops the gradient of every element
  of the regression targets; the classification indicator is an integer tensor.
\<close>

definition RoIDelta_call ::
  "('a \<Rightarrow> 'a) \<Rightarrow> ('a::comm_monoid_add box \<Rightarrow> 'a box \<Rightarrow> 'a box) \<Rightarrow> hyper_params
     \<Rightarrow> 'a roidelta_inputs \<Rightarrow> ('a list list list \<times> int list list list) option" where
  "RoIDelta_call stop_gradient encode_box hp inputs =
     (case inputs of (roi_bboxes, gt_boxes, gt_labels, gt_box_indices) \<Rightarrow>
        let total_labels = hp_total_labels hp;
            total_pos_bboxes = hp_total_pos_bboxes hp;
            total_neg_bboxes = hp_total_neg_bboxes hp;
            total_bboxes = total_pos_bboxes + total_neg_bboxes;
            batch_size = length roi_bboxes
        in do {
          (gt_boxes_map, gt_labels_map, roi_bbox_deltas) \<leftarrow> RoIDelta_targets encode_box hp inputs;
          let flatted_batch_indices = get_tiled_indices batch_size total_bboxes;
          let flatted_bbox_indices = tf_tile (tf_range total_bboxes) batch_size;
          let flatted_gt_labels_indices = concat gt_labels_map;
          scatter_indices \<leftarrow>
            get_scatter_indices_for_bboxes
              (flatted_batch_indices, flatted_bbox_indices, flatted_gt_labels_indices)
              batch_size total_bboxes;
          roi_bbox_deltas' \<leftarrow>
            tf_scatter_nd3 scatter_indices roi_bbox_deltas batch_size total_bboxes total_labels;
          let roi_bbox_deltas'' = map (map (\<lambda>row. concat (map flat_of_box row))) roi_bbox_deltas';
          roi_bbox_labels \<leftarrow>
            tf_scatter_nd3 scatter_indices (tf_ones2 batch_size total_bboxes)
              batch_size total_bboxes total_labels;
          Some (map (map (map stop_gradient)) roi_bbox_deltas'', roi_bbox_labels)
        })"

section \<open>RoI Pooler: \<^verbatim>\<open>RoIPooling.call\<close>\<close>

text \<open>
  Lines 139 to 161. A feature map of one image is a value of the type \<open>'f\<close>, a pooled
  crop a value of the type \<open>'p\<close>.
\<close>

definition RoIPooling_call ::
  "('f \<Rightarrow> 'a box \<Rightarrow> nat \<times> nat \<Rightarrow> 'p) \<Rightarrow> hyper_params \<Rightarrow> 'f list \<times> 'a box list list
     \<Rightarrow> 'p list list option" where
  "RoIPooling_call crop hp inputs =
     (case inputs of (feature_map, roi_bboxes) \<Rightarrow>
        let total_pos_bboxes = hp_total_pos_bboxes hp;
            total_neg_bboxes = hp_total_neg_bboxes hp;
            pooling_size = hp_pooling_size hp;
            total_bboxes = total_pos_bboxes + total_neg_bboxes;
            batch_size = length roi_bboxes;
            row_size = batch_size * total_bboxes;
            flatted_batch_indices = get_tiled_indices batch_size total_bboxes;
            pooling_bbox_indices = flatted_batch_indices
        in do {
          pooling_bboxes \<leftarrow>
            (if length (concat roi_bboxes) = row_size then Some (concat roi_bboxes) else None);
          pooling_feature_map \<leftarrow>
            tf_image_crop_and_resize crop feature_map pooling_bboxes pooling_bbox_indices
              pooling_size;
          tf_reshape2 pooling_feature_map batch_size total_bboxes
        })"

section \<open>Inference Decoder: \<^verbatim>\<open>get_valid_predictions\<close>\<close>

text \<open>
  Lines 176 to 178: the coordinates of the proposals that are kept. The score tensor
  \<open>frcnn_label_pred\<close> is the pair of the size of its class axis and its rows.
\<close>

definition get_valid_label_indices ::
  "nat \<times> 'a::linorder list list list \<Rightarrow> nat \<Rightarrow> (int list list \<times> (int \<times> int) list) option" where
  "get_valid_label_indices frcnn_label_pred total_labels =
     do {
       pred_labels_map \<leftarrow> tf_argmax_axis2 frcnn_label_pred;
       let valid_label_indices =
             tf_where2 (map (map (\<lambda>l. l \<noteq> int total_labels - 1)) pred_labels_map);
       Some (pred_labels_map, valid_label_indices)
     }"

text \<open>
  Lines 163 to 194. The two columns of line 190 are joined into rows of pairs; the
  reshape of line 191 asks for \<open>total_valid_bboxes\<close> such rows.
\<close>

definition get_valid_predictions ::
  "('a box \<Rightarrow> 'a box \<Rightarrow> 'a box) \<Rightarrow> 'a::{linorder,comm_monoid_add} box list list \<Rightarrow> 'a list list list
     \<Rightarrow> nat \<times> 'a list list list \<Rightarrow> nat
     \<Rightarrow> ('a box list list list \<times> 'a list list list) option" where
  "get_valid_predictions decode_box roi_bboxes frcnn_delta_pred frcnn_label_pred total_labels =
     do {
       (pred_labels_map, valid_label_indices) \<leftarrow>
         get_valid_label_indices frcnn_label_pred total_labels;
       let total_valid_bboxes = length valid_label_indices;
       valid_roi_bboxes \<leftarrow> tf_gather_nd2 roi_bboxes valid_label_indices;
       valid_deltas \<leftarrow> tf_gather_nd2 frcnn_delta_pred valid_label_indices;
       valid_deltas' \<leftarrow> tf_reshape_boxes (concat valid_deltas) total_valid_bboxes total_labels;
       valid_labels \<leftarrow> tf_gather_nd2 (snd frcnn_label_pred) valid_label_indices;
       valid_labels_map \<leftarrow> tf_gather_nd2 pred_labels_map valid_label_indices;
       let flatted_bbox_indices = tf_range total_valid_bboxes;
       let flatted_labels_indices = valid_labels_map;
       scatter_indices \<leftarrow>
         (if length flatted_bbox_indices = length flatted_labels_indices
          then Some (zip flatted_bbox_indices flatted_labels_indices) else None);
       scatter_indices' \<leftarrow>
         (if length scatter_indices = total_valid_bboxes then Some scatter_indices else None);
       valid_roi_bboxes' \<leftarrow>
         tf_scatter_nd2 scatter_indices' valid_roi_bboxes total_valid_bboxes total_labels;
       valid_pred_bboxes \<leftarrow> get_bboxes_from_deltas decode_box valid_roi_bboxes' valid_deltas';
       Some ([valid_pred_bboxes], [valid_labels])
     }"

section \<open>Facts on the tensor operations\<close>

lemma mapM_option_Some_iff:
  "mapM_option f xs = Some ys \<longleftrightarrow>
     length ys = length xs \<and> (\<forall>i<length xs. f (xs ! i) = Some (ys ! i))"
proof (induction xs arbitrary: ys)
  case Nil
  then show ?case by auto
next
  case (Cons x xs)
  show ?case
  proof (cases ys)
    case Nil
    then show ?thesis by (auto split: bind_splits)
  next
    case (Cons y ys')
    then show ?thesis
      using Cons.IH [of ys'] by (auto simp: All_less_Suc2 split: bind_splits)
  qed
qed

lemma gather_row_Some_iff:
  "gather_row xs is = Some ys \<longleftrightarrow>
     (\<forall>i\<in>set is. 0 \<le> i \<and> i < int (length xs)) \<and> ys = map (\<lambda>i. xs ! nat i) is"
  unfolding gather_row_def mapM_option_Some_iff
  by (auto simp: list_eq_iff_nth_eq all_set_conv_all_nth split: if_splits)

lemma tf_gather_batch_Some_iff:
  "tf_gather_batch ps iss = Some rs \<longleftrightarrow>
     length iss = length ps \<and> length rs = length ps \<and>
     (\<forall>b<length ps. gather_row (ps ! b) (iss ! b) = Some (rs ! b))"
  unfolding tf_gather_batch_def
  by (auto simp: mapM_option_Some_iff)

lemma tf_concat_axis1_Some_iff:
  "tf_concat_axis1 a b = Some c \<longleftrightarrow>
     length a = length b \<and> length c = length a \<and> (\<forall>i<length a. c ! i = a ! i @ b ! i)"
  by (auto simp: tf_concat_axis1_def list_eq_iff_nth_eq)

lemma length_takeWhile_lt:
  "\<exists>x\<in>set xs. \<not> P x \<Longrightarrow> length (takeWhile P xs) < length xs"
  by (induction xs) auto

lemma argmax_row_Some:
  assumes "argmax_row xs = Some l"
  shows "0 \<le> l \<and> l < int (length xs) \<and> xs ! nat l = Max (set xs)"
proof -
  from assms have ne: "xs \<noteq> []" and l: "l = int (length (takeWhile (\<lambda>x. x \<noteq> Max (set xs)) xs))"
    by (auto simp: argmax_row_def split: if_splits)
  have "Max (set xs) \<in> set xs"
    using ne by (intro Max_in) auto
  then have lt: "length (takeWhile (\<lambda>x. x \<noteq> Max (set xs)) xs) < length xs"
    by (intro length_takeWhile_lt) auto
  then have "xs ! length (takeWhile (\<lambda>x. x \<noteq> Max (set xs)) xs) = Max (set xs)"
    using nth_length_takeWhile [of "\<lambda>x. x \<noteq> Max (set xs)" xs] by simp
  with lt l show ?thesis by simp
qed

lemma argmax_row_None_iff: "argmax_row xs = None \<longleftrightarrow> xs = []"
  by (simp add: argmax_row_def)

lemma tf_argmax_axis2_Some_iff:
  "tf_argmax_axis2 (k, t) = Some p \<longleftrightarrow>
     0 < k \<and> length p = length t \<and>
     (\<forall>b<length t. length (p ! b) = length (t ! b) \<and>
        (\<forall>i<length (t ! b). argmax_row (t ! b ! i) = Some (p ! b ! i)))"
  by (simp add: tf_argmax_axis2_def mapM_option_Some_iff)

lemma set_tf_where2:
  "set (tf_where2 c) = {(int b, int i) | b i. b < length c \<and> i < length (c ! b) \<and> c ! b ! i}"
  by (auto simp: tf_where2_def)

lemma distinct_concat_upt:
  assumes "\<And>b. b < n \<Longrightarrow> distinct (f b)"
    and "\<And>b x. b < n \<Longrightarrow> x \<in> set (f b) \<Longrightarrow> fst x = int b"
  shows "distinct (concat (map f [0..<n]))"
  using assms
proof (induction n)
  case 0
  then show ?case by simp
next
  case (Suc n)
  have "distinct (concat (map f [0..<n]))"
    using Suc by simp
  moreover have "distinct (f n)"
    using Suc.prems by simp
  moreover have "set (concat (map f [0..<n])) \<inter> set (f n) = {}"
  proof (rule ccontr)
    assume "set (concat (map f [0..<n])) \<inter> set (f n) \<noteq> {}"
    then obtain x b where "b < n" "x \<in> set (f b)" "x \<in> set (f n)"
      by auto
    then have "fst x = int b" "fst x = int n"
      using Suc.prems(2) [of b x] Suc.prems(2) [of n x] by simp_all
    with \<open>b < n\<close> show False by simp
  qed
  ultimately show ?case by simp
qed

lemma distinct_tf_where2: "distinct (tf_where2 c)"
  unfolding tf_where2_def
  by (rule distinct_concat_upt) (auto simp: distinct_map inj_on_def)

lemma tf_where2_all_False:
  assumes "\<forall>r\<in>set c. \<forall>x\<in>set r. \<not> x"
  shows "tf_where2 c = []"
proof -
  have "\<not> c ! b ! i" if "b < length c" "i < length (c ! b)" for b i
    using assms that by (meson nth_mem)
  then show ?thesis
    by (auto simp: tf_where2_def filter_empty_conv)
qed

lemma tf_gather_nd2_Some_iff:
  "tf_gather_nd2 params indices = Some ys \<longleftrightarrow>
     (\<forall>(b, i)\<in>set indices. 0 \<le> b \<and> b < int (length params) \<and>
                              0 \<le> i \<and> i < int (length (params ! nat b))) \<and>
     ys = map (\<lambda>(b, i). params ! nat b ! nat i) indices"
proof -
  let ?ok = "\<lambda>p. 0 \<le> fst p \<and> fst p < int (length params) \<and>
                  0 \<le> snd p \<and> snd p < int (length (params ! nat (fst p)))"
  let ?f = "\<lambda>p. if ?ok p then Some (params ! nat (fst p) ! nat (snd p)) else None"
  have "tf_gather_nd2 params indices = mapM_option ?f indices"
    by (simp add: tf_gather_nd2_def case_prod_unfold)
  moreover have "mapM_option ?f indices = Some ys \<longleftrightarrow>
      (\<forall>p\<in>set indices. ?ok p) \<and> ys = map (\<lambda>p. params ! nat (fst p) ! nat (snd p)) indices"
    unfolding mapM_option_Some_iff list_eq_iff_nth_eq all_set_conv_all_nth
    by (auto split: if_splits)
  ultimately show ?thesis
    by (simp add: case_prod_unfold)
qed

lemma length_boxes_of_flat: "length (boxes_of_flat xs) = length xs div 4"
  by (induction xs rule: boxes_of_flat.induct) simp_all

lemma flat_of_box_zero: "flat_of_box (0 :: 'a::zero box) = [0, 0, 0, 0]"
  by (simp add: zero_box_def)

lemma length_flat_of_box: "length (flat_of_box x) = 4"
  by (cases x) simp

lemma take_drop_concat_row:
  assumes "\<forall>r\<in>set rows. length r = m" and "k < length rows"
  shows "take m (drop (k * m) (concat rows)) = rows ! k"
  using assms
proof (induction rows arbitrary: k)
  case Nil
  then show ?case by simp
next
  case (Cons r rows)
  show ?case
  proof (cases k)
    case 0
    then show ?thesis using Cons.prems by simp
  next
    case (Suc j)
    then show ?thesis using Cons.prems Cons.IH [of j] by simp
  qed
qed

lemma length_concat_rect:
  "\<forall>r\<in>set rows. length r = m \<Longrightarrow> length (concat rows) = length rows * m"
  by (induction rows) simp_all

lemma concat_nth_rect:
  assumes "\<forall>r\<in>set rows. length r = m" and "k < length rows" and "j < m"
  shows "concat rows ! (k * m + j) = rows ! k ! j"
proof -
  have "rows ! k ! j = take m (drop (k * m) (concat rows)) ! j"
    using take_drop_concat_row [OF assms(1,2)] by simp
  also have "\<dots> = concat rows ! (k * m + j)"
  proof -
    have "length (concat rows) = length rows * m"
      using assms(1) by (induction rows) simp_all
    moreover have "k * m \<le> length rows * m"
      using assms(2) by simp
    ultimately have "k * m \<le> length (concat rows)"
      by simp
    then show ?thesis
      using assms(3) by simp
  qed
  finally show ?thesis by simp
qed

lemma class_column:
  assumes "c < n"
  shows "take 4 (drop (c * 4) (concat (map (\<lambda>c'. flat_of_box (f c')) [0..<n]))) = flat_of_box (f c)"
proof -
  have "\<forall>r\<in>set (map (\<lambda>c'. flat_of_box (f c')) [0..<n]). length r = 4"
    by (simp add: length_flat_of_box)
  from take_drop_concat_row [OF this, of c] assms show ?thesis
    by simp
qed

lemma length_class_columns:
  "length (concat (map (\<lambda>c'. flat_of_box (f c')) [0..<n])) = n * 4"
proof -
  have "\<forall>r\<in>set (map (\<lambda>c'. flat_of_box (f c')) [0..<n]). length r = 4"
    by (simp add: length_flat_of_box)
  from length_concat_rect [OF this] show ?thesis
    by simp
qed

lemma zip_conv_map_nth:
  "length xs = n \<Longrightarrow> length ys = n \<Longrightarrow> zip xs ys = map (\<lambda>i. (xs ! i, ys ! i)) [0..<n]"
  by (simp add: list_eq_iff_nth_eq)

lemma filter_upt_eq:
  "filter (\<lambda>k. k = a \<and> Q k) [0..<n] = (if a < n \<and> Q a then [a] else [])"
  by (induction n) auto

lemma concat_reshape2:
  "concat (map (\<lambda>i. take n (drop (i * n) xs)) [0..<b]) = take (b * n) xs"
proof (induction b)
  case 0
  then show ?case by simp
next
  case (Suc b)
  have "take (b * n) xs @ take n (drop (b * n) xs) = take (b * n + n) xs"
    by (simp add: take_add)
  with Suc show ?case
    by (simp add: add.commute)
qed

lemma tf_reshape2_Some:
  assumes "tf_reshape2 xs b n = Some t"
  shows "length xs = b * n" "length t = b" "\<And>i. i < b \<Longrightarrow> length (t ! i) = n"
    "concat t = xs" "\<And>i j. i < b \<Longrightarrow> j < n \<Longrightarrow> t ! i ! j = xs ! (i * n + j)"
proof -
  from assms have len: "length xs = b * n"
    and t: "t = map (\<lambda>i. take n (drop (i * n) xs)) [0..<b]"
    by (auto simp: tf_reshape2_def split: if_splits)
  show "length xs = b * n" by (rule len)
  show "length t = b" by (simp add: t)
  show "concat t = xs" by (simp add: t concat_reshape2 len)
  show "length (t ! i) = n" if "i < b" for i
  proof -
    from that have "i * n + n \<le> b * n"
      by (metis Suc_leI mult_Suc mult_le_mono1 add.commute)
    then show ?thesis
      using that by (simp add: t len)
  qed
  show "t ! i ! j = xs ! (i * n + j)" if "i < b" "j < n" for i j
  proof -
    from that have "i * n \<le> length xs"
      by (simp add: len)
    then show ?thesis
      using that by (simp add: t)
  qed
qed

lemma length_tf_range: "length (tf_range n) = n"
  by (simp add: tf_range_def)

lemma nth_tf_range: "r < n \<Longrightarrow> tf_range n ! r = int r"
  by (simp add: tf_range_def)

lemma length_tf_tile_range: "length (tf_tile (tf_range n) b) = b * n"
  by (induction b) (simp_all add: tf_tile_def tf_range_def)

lemma nth_tf_tile_range:
  "r < b * n \<Longrightarrow> tf_tile (tf_range n) b ! r = int (r mod n)"
proof (induction b arbitrary: r)
  case 0
  then show ?case by simp
next
  case (Suc b)
  have step: "tf_tile (tf_range n) (Suc b) = tf_range n @ tf_tile (tf_range n) b"
    by (simp add: tf_tile_def)
  show ?case
  proof (cases "r < n")
    case True
    then show ?thesis
      by (simp add: step nth_append length_tf_range nth_tf_range)
  next
    case False
    with Suc.prems have "r - n < b * n"
      by simp
    from Suc.IH [OF this] False show ?thesis
      by (simp add: step nth_append length_tf_range le_mod_geq)
  qed
qed

lemma get_tiled_indices_Suc:
  "get_tiled_indices (Suc b) n = get_tiled_indices b n @ replicate n (int b)"
  by (simp add: get_tiled_indices_def)

lemma length_get_tiled_indices: "length (get_tiled_indices b n) = b * n"
  by (induction b) (simp_all add: get_tiled_indices_Suc, simp add: get_tiled_indices_def)

lemma nth_get_tiled_indices:
  "r < b * n \<Longrightarrow> get_tiled_indices b n ! r = int (r div n)"
proof (induction b)
  case 0
  then show ?case by simp
next
  case (Suc b)
  show ?case
  proof (cases "r < b * n")
    case True
    then show ?thesis
      using Suc.IH by (simp add: get_tiled_indices_Suc nth_append length_get_tiled_indices)
  next
    case False
    with Suc.prems have "b * n \<le> r" "r < b * n + n" "0 < n"
      by (auto simp: not_less intro: Nat.gr0I)
    then have "r div n = b"
      by (metis div_nat_eqI mult.commute add.commute mult_Suc_right)
    with False Suc.prems show ?thesis
      by (simp add: get_tiled_indices_Suc nth_append length_get_tiled_indices)
  qed
qed

lemma div_mod_flat_index:
  fixes r b i n :: nat
  assumes "i < n"
  shows "r div n = b \<and> r mod n = i \<longleftrightarrow> r = b * n + i"
proof
  assume "r div n = b \<and> r mod n = i"
  then show "r = b * n + i"
    by (metis div_mult_mod_eq)
next
  assume "r = b * n + i"
  with assms show "r div n = b \<and> r mod n = i"
    by simp
qed

lemma flat_index_less:
  fixes b i n m :: nat
  assumes "b < m" and "i < n"
  shows "b * n + i < m * n"
proof -
  have "b * n + i < b * n + n"
    using assms(2) by simp
  also have "\<dots> = Suc b * n"
    by simp
  also have "\<dots> \<le> m * n"
    using assms(1) by (intro mult_le_mono1) simp
  finally show ?thesis .
qed

lemma div_flat_index:
  fixes b i n :: nat
  shows "i < n \<Longrightarrow> (b * n + i) div n = b"
  by simp

lemma scatter_row_lookup:
  fixes us :: "'u::comm_monoid_add list"
  assumes "length ls = n" and "length us = n" and "a < n"
  shows "sum_list (map snd (filter (\<lambda>(ix, u). ix = (int a, c)) (zip (zip (tf_range n) ls) us)))
           = (if ls ! a = c then us ! a else 0)"
proof -
  have z: "zip (zip (tf_range n) ls) us = map (\<lambda>k. ((int k, ls ! k), us ! k)) [0..<n]"
    using assms by (simp add: list_eq_iff_nth_eq tf_range_def)
  have "filter (\<lambda>(ix, u). ix = (int a, c)) (map (\<lambda>k. ((int k, ls ! k), us ! k)) [0..<n])
          = map (\<lambda>k. ((int k, ls ! k), us ! k)) (filter (\<lambda>k. k = a \<and> ls ! k = c) [0..<n])"
    by (simp add: filter_map comp_def)
  then show ?thesis
    using assms(3) by (simp add: z filter_upt_eq)
qed

lemma tf_scatter_nd2_shape:
  assumes "tf_scatter_nd2 ixs us n d = Some t"
  shows "length t = n" and "\<And>a. a < n \<Longrightarrow> length (t ! a) = d"
  using assms by (auto simp: tf_scatter_nd2_def split: if_splits)

lemma tf_scatter_nd2_lookup:
  fixes us :: "'u::comm_monoid_add list"
  assumes "tf_scatter_nd2 (zip (tf_range n) ls) us n d = Some t"
    and "length ls = n" and "a < n" and "c < d"
  shows "length t = n \<and> length (t ! a) = d \<and> t ! a ! c = (if ls ! a = int c then us ! a else 0)"
proof -
  from assms(1,2) have len: "length us = n"
    by (simp add: tf_scatter_nd2_def tf_range_def split: if_splits)
  from assms(1) have t: "t = map (\<lambda>a. map (\<lambda>c.
      sum_list (map snd (filter (\<lambda>(ix, u). ix = (int a, int c)) (zip (zip (tf_range n) ls) us))))
      [0..<d]) [0..<n]"
    by (auto simp: tf_scatter_nd2_def split: if_splits)
  show ?thesis
    using assms(3,4) scatter_row_lookup [OF assms(2) len assms(3), of "int c"]
    by (simp add: t)
qed

lemma tf_scatter_nd3_shape:
  assumes "tf_scatter_nd3 si upd B N L = Some t"
  shows "length t = B" "\<And>b. b < B \<Longrightarrow> length (t ! b) = N"
    "\<And>b i. b < B \<Longrightarrow> i < N \<Longrightarrow> length (t ! b ! i) = L"
    "map length upd = map length si"
    "\<forall>(a, b, c)\<in>set (concat si). 0 \<le> c \<and> c < int L"
  using assms by (auto simp: tf_scatter_nd3_def list_all_iff split: if_splits)

lemma tf_scatter_nd3_lookup:
  fixes upd :: "'u::comm_monoid_add list list"
  assumes si: "get_scatter_indices_for_bboxes
                 (get_tiled_indices B N, tf_tile (tf_range N) B, concat glm) B N = Some si"
    and sc: "tf_scatter_nd3 si upd B N L = Some t"
    and glm: "length glm = B" "\<forall>r\<in>set glm. length r = N"
    and b: "b < B" and i: "i < N" and c: "c < L"
  shows "t ! b ! i ! c = (if glm ! b ! i = int c then upd ! b ! i else 0)"
proof -
  let ?F = "get_tiled_indices B N"
  let ?G = "tf_tile (tf_range N) B"
  let ?Z = "zip ?F (zip ?G (concat glm))"
  from si have rs: "tf_reshape2 ?Z B N = Some si"
    by (simp add: get_scatter_indices_for_bboxes_def split: if_splits)
  note R = tf_reshape2_Some [OF rs]
  have lenL: "length (concat glm) = B * N"
    using length_concat_rect [OF glm(2)] glm(1) by simp
  from sc have shp: "map length upd = map length si"
    and t: "t = map (\<lambda>a. map (\<lambda>b. map (\<lambda>c.
              sum_list (map snd (filter (\<lambda>(ix, u). ix = (int a, int b, int c))
                                        (zip (concat si) (concat upd)))))
              [0..<L]) [0..<N]) [0..<B]"
    by (auto simp: tf_scatter_nd3_def split: if_splits)
  from shp have lenu: "length upd = B"
    using R(2) by (metis length_map)
  have urow: "\<forall>r\<in>set upd. length r = N"
  proof
    fix r assume "r \<in> set upd"
    then obtain k where k: "k < length upd" "r = upd ! k"
      by (auto simp: in_set_conv_nth)
    then have "length r = map length upd ! k"
      by simp
    also have "\<dots> = length (si ! k)"
      using k lenu R(2) by (simp add: shp)
    finally show "length r = N"
      using k lenu R(3) by simp
  qed
  have lenU: "length (concat upd) = B * N"
    using length_concat_rect [OF urow] lenu by simp
  have Z: "?Z ! r = (int (r div N), int (r mod N), concat glm ! r)" if "r < B * N" for r
    using that lenL
    by (simp add: length_get_tiled_indices length_tf_tile_range nth_get_tiled_indices
        nth_tf_tile_range)
  have lenZ: "length ?Z = B * N"
    by (simp add: length_get_tiled_indices length_tf_tile_range lenL)
  have zz: "zip (concat si) (concat upd) = map (\<lambda>r. (?Z ! r, concat upd ! r)) [0..<B * N]"
    unfolding R(4) by (rule zip_conv_map_nth [OF lenZ lenU])
  have flt: "filter (\<lambda>r. ?Z ! r = (int b, int i, int c)) [0..<B * N]
        = filter (\<lambda>r. r = b * N + i \<and> concat glm ! r = int c) [0..<B * N]"
  proof (rule filter_cong [OF refl])
    fix r assume "r \<in> set [0..<B * N]"
    then have r: "r < B * N" by simp
    show "(?Z ! r = (int b, int i, int c)) = (r = b * N + i \<and> concat glm ! r = int c)"
      using div_mod_flat_index [OF i, of r b] by (auto simp: Z [OF r])
  qed
  have idx: "b * N + i < B * N"
    by (rule flat_index_less [OF b i])
  have "t ! b ! i ! c
        = sum_list (map snd (filter (\<lambda>(ix, u). ix = (int b, int i, int c))
                                    (zip (concat si) (concat upd))))"
    using b i c by (simp add: t)
  also have "\<dots> = sum_list (map (\<lambda>r. concat upd ! r)
                      (filter (\<lambda>r. ?Z ! r = (int b, int i, int c)) [0..<B * N]))"
    unfolding zz by (simp add: filter_map comp_def)
  also have "\<dots> = (if concat glm ! (b * N + i) = int c then concat upd ! (b * N + i) else 0)"
    unfolding flt filter_upt_eq using idx by simp
  also have "\<dots> = (if glm ! b ! i = int c then upd ! b ! i else 0)"
    using concat_nth_rect [OF glm(2), of b i] concat_nth_rect [OF urow, of b i] b i glm(1) lenu
    by simp
  finally show ?thesis .
qed

lemma scatter_indices_label_range:
  fixes upd :: "'u::comm_monoid_add list list"
  assumes si: "get_scatter_indices_for_bboxes
                 (get_tiled_indices B N, tf_tile (tf_range N) B, concat glm) B N = Some si"
    and sc: "tf_scatter_nd3 si upd B N L = Some t"
    and glm: "length glm = B" "\<forall>r\<in>set glm. length r = N"
    and b: "b < B" and i: "i < N"
  shows "0 \<le> glm ! b ! i \<and> glm ! b ! i < int L"
proof -
  let ?Z = "zip (get_tiled_indices B N) (zip (tf_tile (tf_range N) B) (concat glm))"
  from si have rs: "tf_reshape2 ?Z B N = Some si"
    by (simp add: get_scatter_indices_for_bboxes_def split: if_splits)
  have cz: "concat si = ?Z"
    by (rule tf_reshape2_Some(4) [OF rs])
  have lenL: "length (concat glm) = B * N"
    using length_concat_rect [OF glm(2)] glm(1) by simp
  have idx: "b * N + i < B * N"
    by (rule flat_index_less [OF b i])
  then have "?Z ! (b * N + i) \<in> set ?Z"
    by (intro nth_mem) (simp add: length_get_tiled_indices length_tf_tile_range lenL)
  moreover have "snd (snd (?Z ! (b * N + i))) = glm ! b ! i"
    using idx lenL concat_nth_rect [OF glm(2), of b i] b i glm(1)
    by (simp add: length_get_tiled_indices length_tf_tile_range)
  moreover have "\<forall>(a, b, c)\<in>set ?Z. 0 \<le> c \<and> c < int L"
    using tf_scatter_nd3_shape(5) [OF sc] by (simp add: cz)
  ultimately show ?thesis
    by (metis (mono_tags, lifting) case_prod_beta)
qed

lemma tf_image_crop_and_resize_Some:
  assumes "length boxes = length ixs" and "\<forall>i\<in>set ixs. 0 \<le> i \<and> i < int (length imgs)"
  shows "tf_image_crop_and_resize crop imgs boxes ixs cs
           = Some (map (\<lambda>r. crop (imgs ! nat (ixs ! r)) (boxes ! r) cs) [0..<length boxes])"
proof -
  have "mapM_option (\<lambda>(bx, i). if 0 \<le> i \<and> i < int (length imgs)
                                then Some (crop (imgs ! nat i) bx cs) else None) (zip boxes ixs)
        = Some (map (\<lambda>r. crop (imgs ! nat (ixs ! r)) (boxes ! r) cs) [0..<length boxes])"
    unfolding mapM_option_Some_iff using assms by simp
  with assms(1) show ?thesis
    by (simp add: tf_image_crop_and_resize_def)
qed

lemma mapM_option_total:
  "(\<forall>x\<in>set xs. \<exists>y. f x = Some y) \<Longrightarrow> \<exists>ys. mapM_option f xs = Some ys"
  by (induction xs) auto

lemma tf_reshape_boxes_Some:
  assumes "tf_reshape_boxes xs b n = Some t"
  shows "length t = b" "\<And>i. i < b \<Longrightarrow> length (t ! i) = n"
proof -
  from assms have len: "length xs = b * n * 4"
    and t: "t = map (\<lambda>i. boxes_of_flat (take (n * 4) (drop (i * (n * 4)) xs))) [0..<b]"
    by (auto simp: tf_reshape_boxes_def split: if_splits)
  show "length t = b" by (simp add: t)
  show "length (t ! i) = n" if "i < b" for i
  proof -
    from that have "i * (n * 4) + n * 4 \<le> b * n * 4"
      by (metis Suc_leI mult_Suc mult_le_mono1 add.commute mult.assoc)
    then show ?thesis
      using that by (simp add: t len length_boxes_of_flat)
  qed
qed

section \<open>The Proposal Selector\<close>

text \<open>
  Claim C9. The reshape of line 50 asks for \<open>batch_size * total_anchors * 4\<close> values,
  both numbers read from the shape of the Anchor Set. When the region-proposal deltas
  hold another number of values, the layer raises the error of the reshape and
  produces no output, whatever the helpers and the other inputs are.
\<close>

theorem RoIBBox_call_shape_mismatch:
  "length (concat (concat (concat rpn_bbox_deltas))) \<noteq> length anchors * dim1 anchors * 4 \<Longrightarrow>
   RoIBBox_call stop_gradient decode_box nms select hp
     (rpn_bbox_deltas, rpn_labels, anchors, gt_boxes) = None"
  by (simp add: RoIBBox_call_def RoIBBox_nms_bboxes_def RoIBBox_rpn_bboxes_def
      tf_reshape_boxes_def)

theorem RoIBBox_call_shape_mismatch_witness:
  "length (concat (concat (concat [[[[0, 0, 0, 0 :: int]]]])))
     \<noteq> length [[Box 0 0 1 1, Box 1 1 2 (2::int)]] * dim1 [[Box 0 0 1 1, Box 1 1 2 (2::int)]] * 4 \<and>
   RoIBBox_call id (\<lambda>a d. a) (\<lambda>b s n m. map (\<lambda>r. take n (map hd r)) b)
     (\<lambda>n g p q. ([[0]], [[0]], [[0]]))
     \<lparr>hp_total_pos_bboxes = 1, hp_total_neg_bboxes = 1, hp_nms_topn = 2, hp_total_labels = 3,
      hp_pooling_size = (7, 7)\<rparr>
     ([[[[0, 0, 0, 0 :: int]]]], [[[[1, 2]]]], [[Box 0 0 1 1, Box 1 1 2 2]], [[Box 0 0 1 1]]) = None"
proof -
  have h: "length (concat (concat (concat [[[[0, 0, 0, 0 :: int]]]])))
     \<noteq> length [[Box 0 0 1 1, Box 1 1 2 (2::int)]] * dim1 [[Box 0 0 1 1, Box 1 1 2 (2::int)]] * 4"
    by (simp add: dim1_def)
  show ?thesis
    using h RoIBBox_call_shape_mismatch [OF h] by blast
qed

subsection \<open>Suppression\<close>

lemma nms_keep_length:
  "length kept \<le> topn \<Longrightarrow> length (nms_keep iou thr topn kept cs) \<le> topn"
  by (induction cs arbitrary: kept) auto

lemma nms_keep_pairwise:
  "sorted_wrt (\<lambda>a b. \<not> thr < iou a b) kept \<Longrightarrow>
   sorted_wrt (\<lambda>a b. \<not> thr < iou a b) (nms_keep iou thr topn kept cs)"
  by (induction cs arbitrary: kept) (auto simp: sorted_wrt_append list_ex_iff)

lemma nms_keep_subset:
  "set (nms_keep iou thr topn kept cs) \<subseteq> set kept \<union> set cs"
proof (induction cs arbitrary: kept)
  case Nil
  then show ?case by simp
next
  case (Cons c cs)
  show ?case
    using Cons.IH [of kept] Cons.IH [of "kept @ [c]"] by auto
qed

lemma nms_survivors_props:
  "length (nms_survivors iou thr topn boxes scores) \<le> topn"
  "sorted_wrt (\<lambda>a b. \<not> thr < iou a b) (nms_survivors iou thr topn boxes scores)"
  "set (nms_survivors iou thr topn boxes scores) \<subseteq> set boxes"
proof -
  show "length (nms_survivors iou thr topn boxes scores) \<le> topn"
    unfolding nms_survivors_def by (rule nms_keep_length) simp
  show "sorted_wrt (\<lambda>a b. \<not> thr < iou a b) (nms_survivors iou thr topn boxes scores)"
    unfolding nms_survivors_def by (rule nms_keep_pairwise) simp
  have "set (map snd (rev (sort_key fst (zip scores boxes)))) \<subseteq> set boxes"
    by (auto dest: set_zip_rightD)
  with nms_keep_subset [of iou thr topn "[]" "map snd (rev (sort_key fst (zip scores boxes)))"]
  show "set (nms_survivors iou thr topn boxes scores) \<subseteq> set boxes"
    unfolding nms_survivors_def by auto
qed

lemma RoIBBox_rpn_bboxes_SomeD:
  assumes "RoIBBox_rpn_bboxes dec (rpn_bbox_deltas, rpn_labels, anchors, gt_boxes) = Some (bx, sc)"
  shows "length bx = length anchors" "length sc = length anchors"
proof -
  from assms obtain ds ls bs where
    "tf_reshape_boxes (concat (concat (concat rpn_bbox_deltas))) (length anchors) (dim1 anchors)
       = Some ds"
    and l: "tf_reshape2 (concat (concat (concat rpn_labels))) (length anchors) (dim1 anchors) = Some ls"
    and g: "get_bboxes_from_deltas dec anchors ds = Some bs"
    and bx: "bx = singleton_axis bs" and sc: "sc = singleton_axis ls"
    by (auto simp: RoIBBox_rpn_bboxes_def Let_def split: bind_splits)
  from g have "length bs = length anchors"
    by (auto simp: get_bboxes_from_deltas_def split: if_splits dest: map_eq_imp_length_eq)
  then show "length bx = length anchors"
    by (simp add: bx singleton_axis_def)
  show "length sc = length anchors"
    using tf_reshape2_Some(2) [OF l] by (simp add: sc singleton_axis_def)
qed

text \<open>
  Claim C7. Let lines 48 to 54 return the decoded boxes and the scores. With the
  suppression \<open>non_max_suppression iou thr\<close>, lines 55 to 57 return, for every image
  \<open>b\<close>, exactly \<open>nms_topn\<close> boxes: the survivors \<open>kept\<close> of image \<open>b\<close>, which are at most
  \<open>nms_topn\<close> decoded boxes of that image, followed by zero boxes; and no survivor has
  an IoU above the threshold with a survivor ranked before it (with no survivor at
  all, when the IoU is symmetric).
\<close>

theorem RoIBBox_nms_cardinality:
  assumes dec: "RoIBBox_rpn_bboxes dec (rpn_bbox_deltas, rpn_labels, anchors, gt_boxes)
                  = Some (rpn_bboxes, rpn_scores)"
    and b: "b < length anchors"
  shows "\<exists>nms_bboxes kept.
           RoIBBox_nms_bboxes dec (non_max_suppression iou thr) hp
             (rpn_bbox_deltas, rpn_labels, anchors, gt_boxes) = Some nms_bboxes \<and>
           kept = nms_survivors iou thr (hp_nms_topn hp)
                    (concat (rpn_bboxes ! b)) (concat (rpn_scores ! b)) \<and>
           length nms_bboxes = length anchors \<and>
           length (nms_bboxes ! b) = hp_nms_topn hp \<and>
           length kept \<le> hp_nms_topn hp \<and>
           set kept \<subseteq> set (concat (rpn_bboxes ! b)) \<and>
           nms_bboxes ! b = kept @ replicate (hp_nms_topn hp - length kept) 0 \<and>
           (\<forall>i j. i < j \<and> j < length kept \<longrightarrow> \<not> thr < iou (kept ! i) (kept ! j)) \<and>
           ((\<forall>x y. iou x y = iou y x) \<longrightarrow>
              (\<forall>i j. i < length kept \<and> j < length kept \<and> i \<noteq> j
                 \<longrightarrow> \<not> thr < iou (kept ! i) (kept ! j)))"
proof -
  let ?n = "hp_nms_topn hp"
  let ?kept = "nms_survivors iou thr ?n (concat (rpn_bboxes ! b)) (concat (rpn_scores ! b))"
  let ?out = "non_max_suppression iou thr rpn_bboxes rpn_scores ?n ?n"
  note L = RoIBBox_rpn_bboxes_SomeD [OF dec]
  have call: "RoIBBox_nms_bboxes dec (non_max_suppression iou thr) hp
             (rpn_bbox_deltas, rpn_labels, anchors, gt_boxes) = Some ?out"
    using dec by (simp add: RoIBBox_nms_bboxes_def)
  have len: "length ?out = length anchors"
    using L by (simp add: non_max_suppression_def)
  have row: "?out ! b = ?kept @ replicate (?n - length ?kept) 0"
    using b L by (simp add: non_max_suppression_def nms_image_def Let_def)
  have P: "length ?kept \<le> ?n" "sorted_wrt (\<lambda>a b. \<not> thr < iou a b) ?kept"
    "set ?kept \<subseteq> set (concat (rpn_bboxes ! b))"
    by (rule nms_survivors_props)+
  have pair: "\<forall>i j. i < j \<and> j < length ?kept \<longrightarrow> \<not> thr < iou (?kept ! i) (?kept ! j)"
    using P(2) by (simp add: sorted_wrt_iff_nth_less)
  have sym: "\<forall>i j. i < length ?kept \<and> j < length ?kept \<and> i \<noteq> j
                 \<longrightarrow> \<not> thr < iou (?kept ! i) (?kept ! j)"
    if s: "\<forall>x y. iou x y = iou y x"
  proof (intro allI impI)
    fix i j assume ij: "i < length ?kept \<and> j < length ?kept \<and> i \<noteq> j"
    show "\<not> thr < iou (?kept ! i) (?kept ! j)"
    proof (cases "i < j")
      case True
      with ij pair show ?thesis by blast
    next
      case False
      with ij have "j < i" by simp
      with ij pair have "\<not> thr < iou (?kept ! j) (?kept ! i)" by blast
      with s show ?thesis by metis
    qed
  qed
  have "length (?out ! b) = ?n"
    using P(1) by (simp add: row)
  with call len row P(1,3) pair sym show ?thesis
    by blast
qed

theorem RoIBBox_nms_cardinality_witness:
  "\<exists>nms_bboxes.
     RoIBBox_nms_bboxes (\<lambda>a d. a + d)
       (non_max_suppression (\<lambda>a b. if a = b then 1 else 0) (0 :: nat))
       \<lparr>hp_total_pos_bboxes = 2, hp_total_neg_bboxes = 2, hp_nms_topn = 3, hp_total_labels = 5,
        hp_pooling_size = (7, 7)\<rparr>
       ([[[[0, 0, 0, 0, 0, 0, 0, 0, 0, 0, 0, 0]]]], [[[[5, 3, 1]]]],
        [[Box 0 0 1 1, Box 1 1 2 2, Box 0 0 1 (1 :: int)]], [[Box 0 0 1 1]]) = Some nms_bboxes \<and>
     length nms_bboxes = 1 \<and> length (nms_bboxes ! 0) = 3 \<and>
     nms_bboxes ! 0 = [Box 0 0 1 1, Box 1 1 2 2, 0]"
proof -
  let ?hp = "\<lparr>hp_total_pos_bboxes = 2, hp_total_neg_bboxes = 2, hp_nms_topn = 3,
              hp_total_labels = 5, hp_pooling_size = (7, 7)\<rparr>"
  let ?iou = "\<lambda>(a :: int box) b. if a = b then 1 else (0 :: nat)"
  let ?anchors = "[[Box 0 0 1 1, Box 1 1 2 2, Box 0 0 1 (1 :: int)]]"
  let ?bx = "[[[Box 0 0 1 1], [Box 1 1 2 2], [Box 0 0 1 (1 :: int)]]]"
  let ?sc = "[[[5], [3], [1 :: int]]]"
  have dec: "RoIBBox_rpn_bboxes (\<lambda>a d. a + d)
       ([[[[0, 0, 0, 0, 0, 0, 0, 0, 0, 0, 0, 0]]]], [[[[5, 3, 1]]]], ?anchors, [[Box 0 0 1 1]])
       = Some (?bx, ?sc)"
    by code_simp
  have b: "0 < length ?anchors"
    by simp
  have kept: "nms_survivors ?iou 0 (hp_nms_topn ?hp) (concat (?bx ! 0)) (concat (?sc ! 0))
                = [Box 0 0 1 1, Box 1 1 2 2]"
    by code_simp
  from RoIBBox_nms_cardinality [OF dec b, of ?iou 0 ?hp]
  obtain nmsb where "RoIBBox_nms_bboxes (\<lambda>a d. a + d) (non_max_suppression ?iou 0) ?hp
       ([[[[0, 0, 0, 0, 0, 0, 0, 0, 0, 0, 0, 0]]]], [[[[5, 3, 1]]]], ?anchors, [[Box 0 0 1 1]])
       = Some nmsb"
    and "length nmsb = length ?anchors" "length (nmsb ! 0) = hp_nms_topn ?hp"
    and "nmsb ! 0 = nms_survivors ?iou 0 (hp_nms_topn ?hp) (concat (?bx ! 0)) (concat (?sc ! 0))
           @ replicate (hp_nms_topn ?hp
               - length (nms_survivors ?iou 0 (hp_nms_topn ?hp) (concat (?bx ! 0)) (concat (?sc ! 0)))) 0"
    by blast
  then show ?thesis
    unfolding kept by (intro exI [of _ nmsb]) (simp add: numeral_3_eq_3)
qed

subsection \<open>Sampling\<close>







section \<open>The Target Assigner\<close>

lemma RoIDelta_targets_SomeD:
  assumes "RoIDelta_targets enc hp (roi, gtb, gtl, gti) = Some (gbm, glm, d)"
  shows "length gti = length roi" "length gbm = length roi" "length glm = length roi"
    "length d = length roi"
    "\<And>b. b < length roi \<Longrightarrow>
       \<forall>j\<in>set (gti ! b). 0 \<le> j \<and> j < int (length (gtb ! b)) \<and> j < int (length (gtl ! b))"
    "\<And>b. b < length roi \<Longrightarrow>
       gbm ! b = map (\<lambda>j. gtb ! b ! nat j) (gti ! b) @ replicate (hp_total_neg_bboxes hp) 0"
    "\<And>b. b < length roi \<Longrightarrow>
       glm ! b = map (\<lambda>j. gtl ! b ! nat j) (gti ! b)
                 @ replicate (hp_total_neg_bboxes hp) (int (hp_total_labels hp) - 1)"
    "\<And>b. b < length roi \<Longrightarrow> length (roi ! b) = length (gti ! b) + hp_total_neg_bboxes hp"
    "\<And>b. b < length roi \<Longrightarrow> length (d ! b) = length (roi ! b)"
    "\<And>b i. b < length roi \<Longrightarrow> i < length (roi ! b) \<Longrightarrow> d ! b ! i = enc (roi ! b ! i) (gbm ! b ! i)"
proof -
  let ?tn = "hp_total_neg_bboxes hp"
  from assms obtain pb pl where
    gb: "tf_gather_batch gtb gti = Some pb"
    and cb: "tf_concat_axis1 pb (tf_zeros_boxes (length roi) ?tn) = Some gbm"
    and gl: "tf_gather_batch gtl gti = Some pl"
    and cl: "tf_concat_axis1 pl (tf_fill2 (length roi) ?tn (int (hp_total_labels hp) - 1)) = Some glm"
    and dd: "get_deltas_from_bboxes enc roi gbm = Some d"
    by (auto simp: RoIDelta_targets_def get_gt_boxes_map_def Let_def split: bind_splits)
  from gb have gb': "length gti = length gtb" "length pb = length gtb"
    "\<And>b. b < length gtb \<Longrightarrow> (\<forall>j\<in>set (gti ! b). 0 \<le> j \<and> j < int (length (gtb ! b)))
        \<and> pb ! b = map (\<lambda>j. gtb ! b ! nat j) (gti ! b)"
    by (simp_all add: tf_gather_batch_Some_iff gather_row_Some_iff)
  from gl have gl': "length gti = length gtl" "length pl = length gtl"
    "\<And>b. b < length gtl \<Longrightarrow> (\<forall>j\<in>set (gti ! b). 0 \<le> j \<and> j < int (length (gtl ! b)))
        \<and> pl ! b = map (\<lambda>j. gtl ! b ! nat j) (gti ! b)"
    by (simp_all add: tf_gather_batch_Some_iff gather_row_Some_iff)
  from cb have cb': "length pb = length roi" "length gbm = length roi"
    "\<And>b. b < length roi \<Longrightarrow> gbm ! b = pb ! b @ replicate ?tn 0"
    by (simp_all add: tf_concat_axis1_Some_iff tf_zeros_boxes_def)
  from cl have cl': "length pl = length roi" "length glm = length roi"
    "\<And>b. b < length roi \<Longrightarrow> glm ! b = pl ! b @ replicate ?tn (int (hp_total_labels hp) - 1)"
    by (simp_all add: tf_concat_axis1_Some_iff tf_fill2_def)
  from dd have dshape: "map length roi = map length gbm"
    and d: "d = map (\<lambda>(bs, gs). map (\<lambda>(b, g). enc b g) (zip bs gs)) (zip roi gbm)"
    by (auto simp: get_deltas_from_bboxes_def split: if_splits)
  show 1: "length gti = length roi"
    using gb' cb' by simp
  show 2: "length gbm = length roi"
    by (rule cb')
  show 3: "length glm = length roi"
    by (rule cl')
  show "length d = length roi"
    by (simp add: d 2)
  show "\<forall>j\<in>set (gti ! b). 0 \<le> j \<and> j < int (length (gtb ! b)) \<and> j < int (length (gtl ! b))"
    if "b < length roi" for b
    using that gb'(3) [of b] gl'(3) [of b] gb' gl' cb' cl' by auto
  show 6: "gbm ! b = map (\<lambda>j. gtb ! b ! nat j) (gti ! b) @ replicate ?tn 0"
    if "b < length roi" for b
    using that gb'(3) [of b] cb'(3) [of b] gb' cb' by simp
  show "glm ! b = map (\<lambda>j. gtl ! b ! nat j) (gti ! b)
                 @ replicate ?tn (int (hp_total_labels hp) - 1)"
    if "b < length roi" for b
    using that gl'(3) [of b] cl'(3) [of b] gl' cl' by simp
  show 8: "length (roi ! b) = length (gti ! b) + ?tn" if "b < length roi" for b
  proof -
    from that have "length (roi ! b) = map length roi ! b"
      by simp
    also have "\<dots> = length (gbm ! b)"
      using that 2 by (simp add: dshape)
    finally show ?thesis
      using 6 [OF that] by simp
  qed
  have rows: "length (gbm ! b) = length (roi ! b)" if "b < length roi" for b
    using 6 [OF that] 8 [OF that] by simp
  show "length (d ! b) = length (roi ! b)" if "b < length roi" for b
    using that 2 rows [OF that] by (simp add: d)
  show "d ! b ! i = enc (roi ! b ! i) (gbm ! b ! i)" if "b < length roi" "i < length (roi ! b)" for b i
    using that 2 rows [OF that(1)] by (simp add: d)
qed

lemma RoIDelta_call_SomeD:
  assumes "RoIDelta_call sg enc hp (roi, gtb, gtl, gti) = Some (deltas, labels)"
  shows "\<exists>gbm glm d si t.
           RoIDelta_targets enc hp (roi, gtb, gtl, gti) = Some (gbm, glm, d) \<and>
           get_scatter_indices_for_bboxes
             (get_tiled_indices (length roi) (hp_total_pos_bboxes hp + hp_total_neg_bboxes hp),
              tf_tile (tf_range (hp_total_pos_bboxes hp + hp_total_neg_bboxes hp)) (length roi),
              concat glm)
             (length roi) (hp_total_pos_bboxes hp + hp_total_neg_bboxes hp) = Some si \<and>
           tf_scatter_nd3 si d (length roi) (hp_total_pos_bboxes hp + hp_total_neg_bboxes hp)
             (hp_total_labels hp) = Some t \<and>
           deltas = map (map (\<lambda>row. map sg (concat (map flat_of_box row)))) t \<and>
           tf_scatter_nd3 si (tf_ones2 (length roi) (hp_total_pos_bboxes hp + hp_total_neg_bboxes hp))
             (length roi) (hp_total_pos_bboxes hp + hp_total_neg_bboxes hp) (hp_total_labels hp)
             = Some labels"
  using assms
  unfolding RoIDelta_call_def
  by (auto simp: Let_def split: bind_splits prod.splits)

lemma RoIDelta_call_slots:
  assumes ret: "RoIDelta_call sg enc hp (roi, gtb, gtl, gti) = Some (deltas, labels)"
  shows "\<exists>gbm glm d.
           RoIDelta_targets enc hp (roi, gtb, gtl, gti) = Some (gbm, glm, d) \<and>
           length labels = length roi \<and> length deltas = length roi \<and>
           (\<forall>b<length roi.
              length (labels ! b) = hp_total_pos_bboxes hp + hp_total_neg_bboxes hp \<and>
              length (deltas ! b) = hp_total_pos_bboxes hp + hp_total_neg_bboxes hp \<and>
              length (glm ! b) = hp_total_pos_bboxes hp + hp_total_neg_bboxes hp \<and>
              (\<forall>i<hp_total_pos_bboxes hp + hp_total_neg_bboxes hp.
                 \<exists>c<hp_total_labels hp.
                   glm ! b ! i = int c \<and>
                   labels ! b ! i = map (\<lambda>c'. if c' = c then 1 else 0) [0..<hp_total_labels hp] \<and>
                   deltas ! b ! i
                     = map sg (concat (map (\<lambda>c'. flat_of_box (if c' = c then d ! b ! i else 0))
                                           [0..<hp_total_labels hp]))))"
proof -
  let ?B = "length roi"
  let ?N = "hp_total_pos_bboxes hp + hp_total_neg_bboxes hp"
  let ?L = "hp_total_labels hp"
  from RoIDelta_call_SomeD [OF ret] obtain gbm glm d si t where
    tg: "RoIDelta_targets enc hp (roi, gtb, gtl, gti) = Some (gbm, glm, d)"
    and si: "get_scatter_indices_for_bboxes
               (get_tiled_indices ?B ?N, tf_tile (tf_range ?N) ?B, concat glm) ?B ?N = Some si"
    and sd: "tf_scatter_nd3 si d ?B ?N ?L = Some t"
    and deltas: "deltas = map (map (\<lambda>row. map sg (concat (map flat_of_box row)))) t"
    and sl: "tf_scatter_nd3 si (tf_ones2 ?B ?N) ?B ?N ?L = Some labels"
    by blast
  note T = RoIDelta_targets_SomeD [OF tg]
  from si have rs: "tf_reshape2 (zip (get_tiled_indices ?B ?N)
                      (zip (tf_tile (tf_range ?N) ?B) (concat glm))) ?B ?N = Some si"
    by (simp add: get_scatter_indices_for_bboxes_def split: if_splits)
  note R = tf_reshape2_Some [OF rs]
  note Sd = tf_scatter_nd3_shape [OF sd]
  note Sl = tf_scatter_nd3_shape [OF sl]
  have drow: "length (d ! b) = ?N" if "b < ?B" for b
  proof -
    from that have "length (d ! b) = map length d ! b"
      by (simp add: T(4))
    also have "\<dots> = length (si ! b)"
      using that R(2) by (simp add: Sd(4))
    finally show ?thesis
      using R(3) [OF that] by simp
  qed
  have grow: "length (glm ! b) = ?N" if "b < ?B" for b
    using drow [OF that] T(7,8,9) [OF that] by simp
  have glm: "length glm = ?B" "\<forall>r\<in>set glm. length r = ?N"
    using T(3) grow by (auto simp: in_set_conv_nth)
  have slot: "\<exists>c<?L. glm ! b ! i = int c \<and>
                   labels ! b ! i = map (\<lambda>c'. if c' = c then 1 else 0) [0..<?L] \<and>
                   deltas ! b ! i
                     = map sg (concat (map (\<lambda>c'. flat_of_box (if c' = c then d ! b ! i else 0))
                                           [0..<?L]))"
    if b: "b < ?B" and i: "i < ?N" for b i
  proof -
    from scatter_indices_label_range [OF si sd glm b i]
    obtain c where c: "c < ?L" "glm ! b ! i = int c"
      by (metis nat_less_iff nonneg_int_cases of_nat_less_iff)
    have lab: "labels ! b ! i = map (\<lambda>c'. if c' = c then 1 else 0) [0..<?L]"
    proof (rule nth_equalityI)
      show "length (labels ! b ! i) = length (map (\<lambda>c'. if c' = c then 1 else (0::int)) [0..<?L])"
        using Sl(3) [OF b i] by simp
    next
      fix c' assume "c' < length (labels ! b ! i)"
      then have c': "c' < ?L"
        using Sl(3) [OF b i] by simp
      show "labels ! b ! i ! c' = map (\<lambda>c'. if c' = c then 1 else 0) [0..<?L] ! c'"
        using tf_scatter_nd3_lookup [OF si sl glm b i c'] c c' b i
        by (auto simp: tf_ones2_def)
    qed
    have tt: "t ! b ! i = map (\<lambda>c'. if c' = c then d ! b ! i else 0) [0..<?L]"
    proof (rule nth_equalityI)
      show "length (t ! b ! i) = length (map (\<lambda>c'. if c' = c then d ! b ! i else 0) [0..<?L])"
        using Sd(3) [OF b i] by simp
    next
      fix c' assume "c' < length (t ! b ! i)"
      then have c': "c' < ?L"
        using Sd(3) [OF b i] by simp
      show "t ! b ! i ! c' = map (\<lambda>c'. if c' = c then d ! b ! i else 0) [0..<?L] ! c'"
        using tf_scatter_nd3_lookup [OF si sd glm b i c'] c c'
        by auto
    qed
    have "deltas ! b ! i = map sg (concat (map flat_of_box (t ! b ! i)))"
      using b i Sd(1,2) by (simp add: deltas)
    also have "\<dots> = map sg (concat (map (\<lambda>c'. flat_of_box (if c' = c then d ! b ! i else 0))
                                         [0..<?L]))"
      by (simp add: tt comp_def)
    finally show ?thesis
      using c lab by blast
  qed
  have "length labels = ?B" "length deltas = ?B"
    using Sl(1) Sd(1) by (simp_all add: deltas)
  moreover have "length (labels ! b) = ?N \<and> length (deltas ! b) = ?N \<and> length (glm ! b) = ?N"
    if "b < ?B" for b
    using that Sl(2) Sd(1,2) grow by (simp add: deltas)
  ultimately show ?thesis
    using tg slot by blast
qed

text \<open>
  On inputs of the documented shapes, with every GT Index Map entry inside the
  image's ground truth and every selected label inside \<open>[0, total_labels)\<close>, the layer
  returns.
\<close>

lemma RoIDelta_call_returns:
  assumes B: "length gtb = length roi" "length gtl = length roi" "length gti = length roi"
    and roi: "\<forall>r\<in>set roi. length r = hp_total_pos_bboxes hp + hp_total_neg_bboxes hp"
    and gti: "\<forall>b<length roi. length (gti ! b) = hp_total_pos_bboxes hp \<and>
                (\<forall>j\<in>set (gti ! b). 0 \<le> j \<and> j < int (length (gtb ! b)) \<and> j < int (length (gtl ! b)) \<and>
                   0 \<le> gtl ! b ! nat j \<and> gtl ! b ! nat j < int (hp_total_labels hp))"
    and L: "0 < hp_total_labels hp"
  shows "\<exists>deltas labels. RoIDelta_call sg enc hp (roi, gtb, gtl, gti) = Some (deltas, labels)"
proof -
  let ?B = "length roi"
  let ?tp = "hp_total_pos_bboxes hp"
  let ?tn = "hp_total_neg_bboxes hp"
  let ?N = "?tp + ?tn"
  let ?L = "hp_total_labels hp"
  let ?pb = "map (\<lambda>b. map (\<lambda>j. gtb ! b ! nat j) (gti ! b)) [0..<?B]"
  let ?pl = "map (\<lambda>b. map (\<lambda>j. gtl ! b ! nat j) (gti ! b)) [0..<?B]"
  have gb: "tf_gather_batch gtb gti = Some ?pb"
    using B gti by (simp add: tf_gather_batch_Some_iff gather_row_Some_iff)
  have gl: "tf_gather_batch gtl gti = Some ?pl"
    using B gti by (simp add: tf_gather_batch_Some_iff gather_row_Some_iff)
  obtain gbm where cb: "tf_concat_axis1 ?pb (tf_zeros_boxes ?B ?tn) = Some gbm"
    by (simp add: tf_concat_axis1_def tf_zeros_boxes_def)
  obtain glm where cl: "tf_concat_axis1 ?pl (tf_fill2 ?B ?tn (int ?L - 1)) = Some glm"
    by (simp add: tf_concat_axis1_def tf_fill2_def)
  from cb have gbm: "length gbm = ?B"
    "\<And>b. b < ?B \<Longrightarrow> gbm ! b = map (\<lambda>j. gtb ! b ! nat j) (gti ! b) @ replicate ?tn 0"
    by (simp_all add: tf_concat_axis1_Some_iff tf_zeros_boxes_def)
  from cl have glm: "length glm = ?B"
    "\<And>b. b < ?B \<Longrightarrow> glm ! b = map (\<lambda>j. gtl ! b ! nat j) (gti ! b) @ replicate ?tn (int ?L - 1)"
    by (simp_all add: tf_concat_axis1_Some_iff tf_fill2_def)
  have roirow: "length (roi ! b) = ?N" if "b < ?B" for b
    using roi that by simp
  have "map length roi = map length gbm"
    using gti roirow gbm by (simp add: list_eq_iff_nth_eq)
  then obtain d where dd: "get_deltas_from_bboxes enc roi gbm = Some d"
    and d: "d = map (\<lambda>(bs, gs). map (\<lambda>(b, g). enc b g) (zip bs gs)) (zip roi gbm)"
    by (simp add: get_deltas_from_bboxes_def)
  have tg: "RoIDelta_targets enc hp (roi, gtb, gtl, gti) = Some (gbm, glm, d)"
    using gb gl cb cl dd by (simp add: RoIDelta_targets_def get_gt_boxes_map_def Let_def)
  have glmrow: "\<forall>r\<in>set glm. length r = ?N"
    using gti glm by (auto simp: in_set_conv_nth)
  have lenL: "length (concat glm) = ?B * ?N"
    using length_concat_rect [OF glmrow] glm(1) by simp
  let ?F = "get_tiled_indices ?B ?N"
  let ?G = "tf_tile (tf_range ?N) ?B"
  let ?Z = "zip ?F (zip ?G (concat glm))"
  have lenZ: "length ?Z = ?B * ?N"
    by (simp add: length_get_tiled_indices length_tf_tile_range lenL)
  then obtain si where rs: "tf_reshape2 ?Z ?B ?N = Some si"
    by (simp add: tf_reshape2_def)
  then have si: "get_scatter_indices_for_bboxes (?F, ?G, concat glm) ?B ?N = Some si"
    by (simp add: get_scatter_indices_for_bboxes_def length_get_tiled_indices
        length_tf_tile_range lenL)
  note R = tf_reshape2_Some [OF rs]
  have shape_si: "map length si = replicate ?B ?N"
    using R(2,3) by (simp add: list_eq_iff_nth_eq)
  have shape_d: "map length d = replicate ?B ?N"
    using gti roirow gbm by (simp add: d list_eq_iff_nth_eq)
  have lab: "0 \<le> glm ! b ! i \<and> glm ! b ! i < int ?L" if "b < ?B" "i < ?N" for b i
  proof (cases "i < ?tp")
    case True
    with that gti have "gti ! b ! i \<in> set (gti ! b)"
      by simp
    with that gti True show ?thesis
      by (simp add: glm(2) nth_append)
  next
    case False
    with that gti L show ?thesis
      by (simp add: glm(2) nth_append)
  qed
  have rng: "list_all (\<lambda>(a, b, c). 0 \<le> a \<and> a < int ?B \<and> 0 \<le> b \<and> b < int ?N \<and> 0 \<le> c \<and> c < int ?L)
               (concat si)"
    unfolding R(4) list_all_iff
  proof (intro ballI)
    fix p assume "p \<in> set ?Z"
    then obtain r where r: "r < ?B * ?N" and p: "p = ?Z ! r"
      using lenZ by (metis in_set_conv_nth)
    from r have N: "0 < ?N"
      by (metis gr0I mult_0_right not_less_zero)
    from r have dv: "r div ?N < ?B"
      by (simp add: less_mult_imp_div_less)
    from N have md: "r mod ?N < ?N"
      by simp
    have "concat glm ! r = glm ! (r div ?N) ! (r mod ?N)"
      using concat_nth_rect [OF glmrow, of "r div ?N" "r mod ?N"] dv md glm(1)
      by (metis div_mult_mod_eq)
    with lab [OF dv md] have c: "0 \<le> concat glm ! r \<and> concat glm ! r < int ?L"
      by simp
    have "p = (int (r div ?N), int (r mod ?N), concat glm ! r)"
      using r lenL
      by (simp add: p length_get_tiled_indices length_tf_tile_range nth_get_tiled_indices
          nth_tf_tile_range)
    with dv md c
    show "case p of (a, b, c) \<Rightarrow> 0 \<le> a \<and> a < int ?B \<and> 0 \<le> b \<and> b < int ?N \<and> 0 \<le> c \<and> c < int ?L"
      by simp
  qed
  obtain t where sd: "tf_scatter_nd3 si d ?B ?N ?L = Some t"
    using rng shape_si shape_d by (simp add: tf_scatter_nd3_def)
  obtain labels where sl: "tf_scatter_nd3 si (tf_ones2 ?B ?N) ?B ?N ?L = Some labels"
    using rng shape_si by (simp add: tf_scatter_nd3_def tf_ones2_def)
  show ?thesis
    using tg si sd sl by (simp add: RoIDelta_call_def Let_def)
qed

text \<open>
  Claim C2. Whenever the Target Assigner returns, every slot \<open>i\<close> of every image \<open>b\<close>
  has one assigned class \<open>c\<close> below \<open>total_labels\<close>, the slot's entry of the label map of
  lines 102 to 104. The classification indicator of the slot is 1 in column \<open>c\<close> and 0
  in every other column; the regression target of the slot holds the slot's delta in
  the four values of column \<open>c\<close> and zeros in the four values of every other column.
  The delta is the one of line 106 after the \<open>stop_gradient\<close> of line 116, which is any
  operation that keeps zero: with the identity it is the delta of line 106 itself, with
  \<open>tf_stop_gradient\<close> that delta with its tangents cleared.
\<close>

theorem RoIDelta_call_scatter_exclusive:
  assumes ret: "RoIDelta_call sg enc hp (roi, gtb, gtl, gti) = Some (deltas, labels)"
    and sg: "sg 0 = 0"
    and b: "b < length roi"
    and i: "i < hp_total_pos_bboxes hp + hp_total_neg_bboxes hp"
  shows "\<exists>gbm glm d c.
           RoIDelta_targets enc hp (roi, gtb, gtl, gti) = Some (gbm, glm, d) \<and>
           c < hp_total_labels hp \<and> glm ! b ! i = int c \<and>
           length (labels ! b ! i) = hp_total_labels hp \<and>
           length (deltas ! b ! i) = hp_total_labels hp * 4 \<and>
           labels ! b ! i ! c = 1 \<and>
           take 4 (drop (c * 4) (deltas ! b ! i)) = map sg (flat_of_box (d ! b ! i)) \<and>
           (\<forall>c'<hp_total_labels hp. c' \<noteq> c \<longrightarrow>
              labels ! b ! i ! c' = 0 \<and>
              take 4 (drop (c' * 4) (deltas ! b ! i)) = [0, 0, 0, 0])"
proof -
  from RoIDelta_call_slots [OF ret] b i obtain gbm glm d c where
    tg: "RoIDelta_targets enc hp (roi, gtb, gtl, gti) = Some (gbm, glm, d)"
    and c: "c < hp_total_labels hp" "glm ! b ! i = int c"
    and lab: "labels ! b ! i = map (\<lambda>c'. if c' = c then 1 else 0) [0..<hp_total_labels hp]"
    and del: "deltas ! b ! i
                = map sg (concat (map (\<lambda>c'. flat_of_box (if c' = c then d ! b ! i else 0))
                                      [0..<hp_total_labels hp]))"
    by blast
  have "take 4 (drop (c' * 4) (deltas ! b ! i))
          = map sg (flat_of_box (if c' = c then d ! b ! i else 0))"
    if "c' < hp_total_labels hp" for c'
    unfolding del by (simp only: take_map drop_map class_column [OF that])
  then have "take 4 (drop (c * 4) (deltas ! b ! i)) = map sg (flat_of_box (d ! b ! i))"
    and "\<forall>c'<hp_total_labels hp. c' \<noteq> c \<longrightarrow> take 4 (drop (c' * 4) (deltas ! b ! i)) = [0, 0, 0, 0]"
    using c(1) sg by (simp_all add: flat_of_box_zero)
  moreover have "length (deltas ! b ! i) = hp_total_labels hp * 4"
    unfolding del length_map by (rule length_class_columns)
  moreover have "length (labels ! b ! i) = hp_total_labels hp" "labels ! b ! i ! c = 1"
    "\<forall>c'<hp_total_labels hp. c' \<noteq> c \<longrightarrow> labels ! b ! i ! c' = 0"
    using c(1) by (simp_all add: lab)
  ultimately show ?thesis
    using tg c by blast
qed

theorem RoIDelta_call_scatter_exclusive_witness:
  "RoIDelta_call id (\<lambda>r t. t + r)
     \<lparr>hp_total_pos_bboxes = 2, hp_total_neg_bboxes = 2, hp_nms_topn = 3, hp_total_labels = 5,
      hp_pooling_size = (7, 7)\<rparr>
     ([[Box 1 1 5 5, Box 2 2 7 7, 0, 0]], [[Box 2 2 6 (6::int)]], [[3]], [[0, 0]])
   = Some ([[[0, 0, 0, 0, 0, 0, 0, 0, 0, 0, 0, 0, 3, 3, 11, 11, 0, 0, 0, 0],
             [0, 0, 0, 0, 0, 0, 0, 0, 0, 0, 0, 0, 4, 4, 13, 13, 0, 0, 0, 0],
             [0, 0, 0, 0, 0, 0, 0, 0, 0, 0, 0, 0, 0, 0, 0, 0, 0, 0, 0, 0],
             [0, 0, 0, 0, 0, 0, 0, 0, 0, 0, 0, 0, 0, 0, 0, 0, 0, 0, 0, 0]]],
           [[[0, 0, 0, 1, 0], [0, 0, 0, 1, 0], [0, 0, 0, 0, 1], [0, 0, 0, 0, 1]]]) \<and>
   (\<exists>c<5. [0, 0, 0, 1, 0 :: int] ! c = 1 \<and>
      (\<forall>c'<5. c' \<noteq> c \<longrightarrow>
         [0, 0, 0, 1, 0 :: int] ! c' = 0 \<and>
         take 4 (drop (c' * 4) [0, 0, 0, 0, 0, 0, 0, 0, 0, 0, 0, 0, 4, 4, 13, 13, 0, 0, 0, 0 :: int])
           = [0, 0, 0, 0]))"
proof -
  let ?hp = "\<lparr>hp_total_pos_bboxes = 2, hp_total_neg_bboxes = 2, hp_nms_topn = 3,
              hp_total_labels = 5, hp_pooling_size = (7, 7)\<rparr>"
  let ?D = "[[[0, 0, 0, 0, 0, 0, 0, 0, 0, 0, 0, 0, 3, 3, 11, 11, 0, 0, 0, 0],
             [0, 0, 0, 0, 0, 0, 0, 0, 0, 0, 0, 0, 4, 4, 13, 13, 0, 0, 0, 0],
             [0, 0, 0, 0, 0, 0, 0, 0, 0, 0, 0, 0, 0, 0, 0, 0, 0, 0, 0, 0],
             [0, 0, 0, 0, 0, 0, 0, 0, 0, 0, 0, 0, 0, 0, 0, 0, 0, 0, 0, 0 :: int]]]"
  let ?L = "[[[0, 0, 0, 1, 0], [0, 0, 0, 1, 0], [0, 0, 0, 0, 1], [0, 0, 0, 0, 1 :: int]]]"
  have ret: "RoIDelta_call id (\<lambda>r t. t + r) ?hp
     ([[Box 1 1 5 5, Box 2 2 7 7, 0, 0]], [[Box 2 2 6 (6::int)]], [[3]], [[0, 0]]) = Some (?D, ?L)"
    by code_simp
  have sg: "id (0 :: int) = 0"
    by simp
  have b: "0 < length [[Box 1 1 5 5, Box 2 2 7 7, 0, 0 :: int box]]"
    by simp
  have i: "1 < hp_total_pos_bboxes ?hp + hp_total_neg_bboxes ?hp"
    by simp
  from RoIDelta_call_scatter_exclusive [OF ret sg b i]
  obtain c where "c < hp_total_labels ?hp" "?L ! 0 ! 1 ! c = 1"
    "\<forall>c'<hp_total_labels ?hp. c' \<noteq> c \<longrightarrow>
       ?L ! 0 ! 1 ! c' = 0 \<and> take 4 (drop (c' * 4) (?D ! 0 ! 1)) = [0, 0, 0, 0]"
    by blast
  then have "\<exists>c<5. [0, 0, 0, 1, 0 :: int] ! c = 1 \<and>
      (\<forall>c'<5. c' \<noteq> c \<longrightarrow>
         [0, 0, 0, 1, 0 :: int] ! c' = 0 \<and>
         take 4 (drop (c' * 4) [0, 0, 0, 0, 0, 0, 0, 0, 0, 0, 0, 0, 4, 4, 13, 13, 0, 0, 0, 0 :: int])
           = [0, 0, 0, 0])"
    by (intro exI [of _ c]) simp
  with ret show ?thesis
    by blast
qed




section \<open>The RoI Pooler\<close>

lemma RoIPooling_call_rows:
  assumes rect: "\<forall>r\<in>set roi. length r = hp_total_pos_bboxes hp + hp_total_neg_bboxes hp"
    and fm: "length roi \<le> length fm"
  shows "RoIPooling_call crop hp (fm, roi)
           = Some (map (\<lambda>b. map (\<lambda>bx. crop (fm ! b) bx (hp_pooling_size hp)) (roi ! b))
                       [0..<length roi])"
proof -
  let ?B = "length roi"
  let ?N = "hp_total_pos_bboxes hp + hp_total_neg_bboxes hp"
  let ?ps = "hp_pooling_size hp"
  let ?ix = "get_tiled_indices ?B ?N"
  let ?pf = "map (\<lambda>r. crop (fm ! nat (?ix ! r)) (concat roi ! r) ?ps) [0..<length (concat roi)]"
  have lc: "length (concat roi) = ?B * ?N"
    by (rule length_concat_rect [OF rect])
  have rng: "\<forall>i\<in>set ?ix. 0 \<le> i \<and> i < int (length fm)"
  proof
    fix i assume "i \<in> set ?ix"
    then obtain r where r: "r < ?B * ?N" "i = ?ix ! r"
      by (auto simp: in_set_conv_nth length_get_tiled_indices)
    then have i: "i = int (r div ?N)"
      by (simp add: nth_get_tiled_indices)
    from r(1) have "r div ?N < ?B"
      by (simp add: less_mult_imp_div_less)
    with fm i show "0 \<le> i \<and> i < int (length fm)"
      by simp
  qed
  have cr: "tf_image_crop_and_resize crop fm (concat roi) ?ix ?ps = Some ?pf"
    by (rule tf_image_crop_and_resize_Some [OF _ rng]) (simp add: lc length_get_tiled_indices)
  have rs: "tf_reshape2 ?pf ?B ?N = Some (map (\<lambda>i. take ?N (drop (i * ?N) ?pf)) [0..<?B])"
    by (simp add: tf_reshape2_def lc)
  have "map (\<lambda>i. take ?N (drop (i * ?N) ?pf)) [0..<?B]
        = map (\<lambda>b. map (\<lambda>bx. crop (fm ! b) bx ?ps) (roi ! b)) [0..<?B]"
  proof (rule map_cong [OF refl])
    fix b assume "b \<in> set [0..<?B]"
    then have b: "b < ?B" by simp
    then have rowlen: "length (roi ! b) = ?N"
      using rect by simp
    show "take ?N (drop (b * ?N) ?pf) = map (\<lambda>bx. crop (fm ! b) bx ?ps) (roi ! b)"
    proof (rule nth_equalityI)
      have "b * ?N + ?N \<le> ?B * ?N"
        using b by (metis Suc_leI mult_Suc mult_le_mono1 add.commute)
      then show "length (take ?N (drop (b * ?N) ?pf))
                 = length (map (\<lambda>bx. crop (fm ! b) bx ?ps) (roi ! b))"
        by (simp add: lc rowlen)
    next
      fix i assume "i < length (take ?N (drop (b * ?N) ?pf))"
      then have i: "i < ?N" by simp
      have idx: "b * ?N + i < ?B * ?N"
        by (rule flat_index_less [OF b i])
      have "b * ?N \<le> length ?pf"
        using b by (simp add: lc)
      then have "take ?N (drop (b * ?N) ?pf) ! i = ?pf ! (b * ?N + i)"
        using i by (simp del: length_map map_nth)
      also have "\<dots> = crop (fm ! nat (?ix ! (b * ?N + i))) (concat roi ! (b * ?N + i)) ?ps"
        using idx by (simp add: lc)
      also have "\<dots> = crop (fm ! b) (roi ! b ! i) ?ps"
        using concat_nth_rect [OF rect b i] nth_get_tiled_indices [OF idx]
          div_flat_index [OF i, of b]
        by (simp del: div_mult_self3 div_mult_self4 div_mult_self2 div_mult_self1)
      finally show "take ?N (drop (b * ?N) ?pf) ! i = map (\<lambda>bx. crop (fm ! b) bx ?ps) (roi ! b) ! i"
        using i rowlen by simp
    qed
  qed
  with cr rs lc show ?thesis
    by (simp add: RoIPooling_call_def Let_def)
qed

text \<open>
  Claim C5. On a Proposal Batch of \<open>total_pos_bboxes + total_neg_bboxes\<close> boxes for every
  image and a feature map for every image, the layer returns, and the pooled features
  of proposal \<open>i\<close> of image \<open>b\<close> are the crop of box \<open>i\<close> from the feature map of image
  \<open>b\<close>. The row of image \<open>b\<close> is the row the layer returns for image \<open>b\<close> alone, and it
  stays the same when the feature maps of the other images change.
\<close>

theorem RoIPooling_call_batch_isolation:
  assumes rect: "\<forall>r\<in>set roi. length r = hp_total_pos_bboxes hp + hp_total_neg_bboxes hp"
    and fm: "length fm = length roi"
  shows "\<exists>out.
           RoIPooling_call crop hp (fm, roi) = Some out \<and> length out = length roi \<and>
           (\<forall>b<length roi.
              out ! b = map (\<lambda>bx. crop (fm ! b) bx (hp_pooling_size hp)) (roi ! b) \<and>
              RoIPooling_call crop hp ([fm ! b], [roi ! b]) = Some [out ! b] \<and>
              (\<forall>fm'. length fm' = length roi \<and> fm' ! b = fm ! b \<longrightarrow>
                 (\<exists>out'. RoIPooling_call crop hp (fm', roi) = Some out' \<and> out' ! b = out ! b)))"
proof -
  let ?out = "map (\<lambda>b. map (\<lambda>bx. crop (fm ! b) bx (hp_pooling_size hp)) (roi ! b)) [0..<length roi]"
  have call: "RoIPooling_call crop hp (fm, roi) = Some ?out"
    using RoIPooling_call_rows [OF rect, of fm crop] fm by simp
  have single: "RoIPooling_call crop hp ([fm ! b], [roi ! b]) = Some [?out ! b]"
    if "b < length roi" for b
  proof -
    have "\<forall>r\<in>set [roi ! b]. length r = hp_total_pos_bboxes hp + hp_total_neg_bboxes hp"
      using rect that by simp
    from RoIPooling_call_rows [OF this, of "[fm ! b]" crop] that show ?thesis
      by simp
  qed
  have other: "\<exists>out'. RoIPooling_call crop hp (fm', roi) = Some out' \<and> out' ! b = ?out ! b"
    if "b < length roi" "length fm' = length roi" "fm' ! b = fm ! b" for b fm'
    using RoIPooling_call_rows [OF rect, of fm' crop] that by simp
  show ?thesis
    using call single other by (intro exI [of _ ?out]) simp
qed

theorem RoIPooling_call_batch_isolation_witness:
  "\<exists>out.
     RoIPooling_call (\<lambda>f bx s. (f, bx, s))
       \<lparr>hp_total_pos_bboxes = 1, hp_total_neg_bboxes = 1, hp_nms_topn = 3, hp_total_labels = 5,
        hp_pooling_size = (7, 7)\<rparr>
       ([10, 20 :: nat], [[Box 1 1 5 5, 0], [Box 1 2 3 4, 0 :: int box]]) = Some out \<and>
     length out = 2 \<and>
     out ! 1 = [(20, Box 1 2 3 4, (7, 7)), (20, 0, (7, 7))] \<and>
     RoIPooling_call (\<lambda>f bx s. (f, bx, s))
       \<lparr>hp_total_pos_bboxes = 1, hp_total_neg_bboxes = 1, hp_nms_topn = 3, hp_total_labels = 5,
        hp_pooling_size = (7, 7)\<rparr>
       ([20 :: nat], [[Box 1 2 3 4, 0 :: int box]]) = Some [out ! 1]"
proof -
  let ?hp = "\<lparr>hp_total_pos_bboxes = 1, hp_total_neg_bboxes = 1, hp_nms_topn = 3,
              hp_total_labels = 5, hp_pooling_size = (7, 7)\<rparr>"
  let ?crop = "\<lambda>(f :: nat) (bx :: int box) (s :: nat \<times> nat). (f, bx, s)"
  let ?fm = "[10, 20 :: nat]"
  let ?roi = "[[Box 1 1 5 5, 0], [Box 1 2 3 4, 0 :: int box]]"
  have rect: "\<forall>r\<in>set ?roi. length r = hp_total_pos_bboxes ?hp + hp_total_neg_bboxes ?hp"
    by simp
  have fm: "length ?fm = length ?roi"
    by simp
  from RoIPooling_call_batch_isolation [OF rect fm, of ?crop]
  obtain out where call: "RoIPooling_call ?crop ?hp (?fm, ?roi) = Some out"
    and len: "length out = length ?roi"
    and rows: "\<forall>b<length ?roi.
              out ! b = map (\<lambda>bx. ?crop (?fm ! b) bx (hp_pooling_size ?hp)) (?roi ! b) \<and>
              RoIPooling_call ?crop ?hp ([?fm ! b], [?roi ! b]) = Some [out ! b]"
    by blast
  from rows [rule_format, of 1]
  have "out ! 1 = [(20, Box 1 2 3 4, (7, 7)), (20, 0, (7, 7))]"
    "RoIPooling_call ?crop ?hp ([20 :: nat], [[Box 1 2 3 4, 0 :: int box]]) = Some [out ! 1]"
    by simp_all
  with call len show ?thesis
    by (intro exI [of _ out]) simp
qed

section \<open>The Inference Decoder\<close>

lemma get_valid_label_indices_Some_iff:
  "get_valid_label_indices (k, pred) L = Some (pm, idx) \<longleftrightarrow>
     tf_argmax_axis2 (k, pred) = Some pm \<and>
     idx = tf_where2 (map (map (\<lambda>l. l \<noteq> int L - 1)) pm)"
  by (auto simp: get_valid_label_indices_def split: bind_splits)

lemma set_valid_label_indices:
  assumes "get_valid_label_indices (k, pred) L = Some (pm, idx)"
  shows "set idx = {(int b, int i) | b i. b < length pred \<and> i < length (pred ! b) \<and>
                      argmax_row (pred ! b ! i) \<noteq> Some (int L - 1)}"
proof -
  from assms have am: "tf_argmax_axis2 (k, pred) = Some pm"
    and idx: "idx = tf_where2 (map (map (\<lambda>l. l \<noteq> int L - 1)) pm)"
    by (simp_all add: get_valid_label_indices_Some_iff)
  from am have len: "length pm = length pred"
    and row: "\<And>b. b < length pred \<Longrightarrow> length (pm ! b) = length (pred ! b)"
    and arg: "\<And>b i. b < length pred \<Longrightarrow> i < length (pred ! b) \<Longrightarrow>
                argmax_row (pred ! b ! i) = Some (pm ! b ! i)"
    by (simp_all add: tf_argmax_axis2_Some_iff)
  show ?thesis
    unfolding idx set_tf_where2
    using len row arg by auto
qed

lemma valid_label_indices_in_range:
  assumes "get_valid_label_indices (k, pred) L = Some (pm, idx)" and "(b, i) \<in> set idx"
  shows "0 \<le> b \<and> nat b < length pred \<and> 0 \<le> i \<and> nat i < length (pred ! nat b) \<and>
         length pm = length pred \<and> length (pm ! nat b) = length (pred ! nat b) \<and>
         argmax_row (pred ! nat b ! nat i) = Some (pm ! nat b ! nat i) \<and>
         pm ! nat b ! nat i \<noteq> int L - 1"
proof -
  from assms(1) have am: "tf_argmax_axis2 (k, pred) = Some pm"
    by (simp add: get_valid_label_indices_Some_iff)
  from set_valid_label_indices [OF assms(1)] assms(2)
  obtain b' i' where bi: "b = int b'" "i = int i'" "b' < length pred" "i' < length (pred ! b')"
    "argmax_row (pred ! b' ! i') \<noteq> Some (int L - 1)"
    by auto
  with am show ?thesis
    by (auto simp: tf_argmax_axis2_Some_iff)
qed

lemma get_valid_predictions_SomeD:
  assumes "get_valid_predictions dec roi deltas (k, pred) L = Some (boxes, labels)"
  shows "\<exists>pm idx vd vroi vpb.
           get_valid_label_indices (k, pred) L = Some (pm, idx) \<and>
           tf_gather_nd2 roi idx = Some (map (\<lambda>(b, i). roi ! nat b ! nat i) idx) \<and>
           tf_gather_nd2 deltas idx = Some (map (\<lambda>(b, i). deltas ! nat b ! nat i) idx) \<and>
           tf_reshape_boxes (concat (map (\<lambda>(b, i). deltas ! nat b ! nat i) idx)) (length idx) L
             = Some vd \<and>
           tf_scatter_nd2 (zip (tf_range (length idx)) (map (\<lambda>(b, i). pm ! nat b ! nat i) idx))
             (map (\<lambda>(b, i). roi ! nat b ! nat i) idx) (length idx) L = Some vroi \<and>
           get_bboxes_from_deltas dec vroi vd = Some vpb \<and>
           boxes = [vpb] \<and>
           labels = [map (\<lambda>(b, i). pred ! nat b ! nat i) idx]"
  using assms
  unfolding get_valid_predictions_def
  by (auto simp: tf_gather_nd2_Some_iff Let_def split: bind_splits if_splits)

lemma get_valid_predictions_empty_class_axis:
  "get_valid_predictions dec roi deltas (0, pred) L = None"
  by (simp add: get_valid_predictions_def get_valid_label_indices_def tf_argmax_axis2_def)

lemma get_valid_predictions_all_background:
  assumes k: "0 < k"
    and bg: "\<forall>r\<in>set pred. \<forall>s\<in>set r. argmax_row s = Some (int L - 1)"
  shows "get_valid_predictions dec roi deltas (k, pred) L = Some ([[]], [[]])"
proof -
  let ?pm = "map (map (\<lambda>s. int L - 1)) pred"
  have "argmax_row (pred ! b ! i) = Some (int L - 1)"
    if "b < length pred" "i < length (pred ! b)" for b i
    using bg that by (meson nth_mem)
  then have am: "tf_argmax_axis2 (k, pred) = Some ?pm"
    using k by (simp add: tf_argmax_axis2_Some_iff)
  have "tf_where2 (map (map (\<lambda>l. l \<noteq> int L - 1)) ?pm) = []"
    by (rule tf_where2_all_False) auto
  with am have "get_valid_label_indices (k, pred) L = Some (?pm, [])"
    by (simp add: get_valid_label_indices_Some_iff)
  then show ?thesis
    by (simp add: get_valid_predictions_def tf_gather_nd2_def tf_reshape_boxes_def tf_range_def
        tf_scatter_nd2_def get_bboxes_from_deltas_def)
qed

text \<open>
  On inputs of the documented shapes, with at least one class, the decoder returns.
\<close>

lemma get_valid_predictions_returns:
  assumes L: "0 < L"
    and roi: "length roi = length pred" "\<forall>b<length pred. length (roi ! b) = length (pred ! b)"
    and del: "length deltas = length pred" "\<forall>b<length pred. length (deltas ! b) = length (pred ! b)"
    and rows: "\<forall>b<length pred. \<forall>i<length (pred ! b).
                 length (pred ! b ! i) = L \<and> length (deltas ! b ! i) = L * 4"
  shows "\<exists>boxes labels. get_valid_predictions dec roi deltas (L, pred) L = Some (boxes, labels)"
proof -
  define k where "k = L"
  have "\<exists>pm. mapM_option (mapM_option argmax_row) pred = Some pm"
  proof (intro mapM_option_total ballI)
    fix r s assume "r \<in> set pred" "s \<in> set r"
    then have "length s = L"
      using rows by (metis in_set_conv_nth)
    with L show "\<exists>y. argmax_row s = Some y"
      by (auto simp: argmax_row_def)
  qed
  then obtain pm where am: "tf_argmax_axis2 (k, pred) = Some pm"
    using L by (auto simp: tf_argmax_axis2_def k_def)
  define idx where "idx = tf_where2 (map (map (\<lambda>l. l \<noteq> int L - 1)) pm)"
  have vi: "get_valid_label_indices (k, pred) L = Some (pm, idx)"
    by (simp add: get_valid_label_indices_Some_iff am idx_def)
  let ?K = "length idx"
  have rng: "0 \<le> b \<and> nat b < length pred \<and> 0 \<le> i \<and> nat i < length (pred ! nat b) \<and>
             length (pm ! nat b) = length (pred ! nat b) \<and> length pm = length pred \<and>
             argmax_row (pred ! nat b ! nat i) = Some (pm ! nat b ! nat i)"
    if "(b, i) \<in> set idx" for b i
    using valid_label_indices_in_range [OF vi that] by simp
  have g1: "tf_gather_nd2 roi idx = Some (map (\<lambda>(b, i). roi ! nat b ! nat i) idx)"
    unfolding tf_gather_nd2_Some_iff using rng roi by fastforce
  have g2: "tf_gather_nd2 deltas idx = Some (map (\<lambda>(b, i). deltas ! nat b ! nat i) idx)"
    unfolding tf_gather_nd2_Some_iff using rng del by fastforce
  have g3: "tf_gather_nd2 pred idx = Some (map (\<lambda>(b, i). pred ! nat b ! nat i) idx)"
    unfolding tf_gather_nd2_Some_iff using rng by fastforce
  have g4: "tf_gather_nd2 pm idx = Some (map (\<lambda>(b, i). pm ! nat b ! nat i) idx)"
    unfolding tf_gather_nd2_Some_iff using rng by fastforce
  let ?D = "map (\<lambda>(b, i). deltas ! nat b ! nat i) idx"
  let ?ls = "map (\<lambda>(b, i). pm ! nat b ! nat i) idx"
  let ?us = "map (\<lambda>(b, i). roi ! nat b ! nat i) idx"
  have Drow: "\<forall>r\<in>set ?D. length r = L * 4"
    using rng rows by fastforce
  have "length (concat ?D) = ?K * L * 4"
    using length_concat_rect [OF Drow] by simp
  then obtain vd where rs: "tf_reshape_boxes (concat ?D) ?K L = Some vd"
    by (simp add: tf_reshape_boxes_def)
  have lab: "0 \<le> l \<and> l < int L" if "l \<in> set ?ls" for l
  proof -
    from that obtain b i where bi: "(b, i) \<in> set idx" and l: "l = pm ! nat b ! nat i"
      by auto
    from rng [OF bi] have am': "argmax_row (pred ! nat b ! nat i) = Some l"
      and "nat b < length pred" "nat i < length (pred ! nat b)"
      by (simp_all add: l)
    with rows have "length (pred ! nat b ! nat i) = L"
      by simp
    with argmax_row_Some [OF am'] show ?thesis
      by simp
  qed
  have "list_all (\<lambda>(a, c). 0 \<le> a \<and> a < int ?K \<and> 0 \<le> c \<and> c < int L) (zip (tf_range ?K) ?ls)"
    unfolding list_all_iff
  proof (intro ballI)
    fix p assume "p \<in> set (zip (tf_range ?K) ?ls)"
    then obtain a c where p: "p = (a, c)" and a: "a \<in> set (tf_range ?K)" and c: "c \<in> set ?ls"
      by (metis prod.collapse set_zip_leftD set_zip_rightD)
    from a have "0 \<le> a \<and> a < int ?K"
      by (auto simp: tf_range_def)
    with lab [OF c] show "case p of (a, c) \<Rightarrow> 0 \<le> a \<and> a < int ?K \<and> 0 \<le> c \<and> c < int L"
      by (simp add: p)
  qed
  then obtain vroi where sc: "tf_scatter_nd2 (zip (tf_range ?K) ?ls) ?us ?K L = Some vroi"
    by (simp add: tf_scatter_nd2_def length_tf_range)
  have "map length vroi = map length vd"
    using tf_scatter_nd2_shape [OF sc] tf_reshape_boxes_Some [OF rs]
    by (simp add: list_eq_iff_nth_eq)
  then obtain vpb where gb: "get_bboxes_from_deltas dec vroi vd = Some vpb"
    by (simp add: get_bboxes_from_deltas_def)
  show ?thesis
    using vi g1 g2 g3 g4 rs sc gb
    by (simp add: get_valid_predictions_def length_tf_range k_def)
qed

text \<open>
  Claim C4. Whenever the decoder returns, the proposals it keeps are exactly the
  coordinates \<open>(b, i)\<close> whose arg-max class is not \<open>total_labels - 1\<close>, each once, and
  both outputs have a leading axis of size 1 and one entry for every kept proposal.
  When the class axis of the score tensor is not empty and the arg-max class of every
  proposal is the background, the decoder returns (it raises no error), and both
  outputs have a proposal axis of length 0. A score tensor with an empty class axis
  has no background column; on it line 176 raises, whatever its other axes are
  (\<open>get_valid_predictions_empty_class_axis\<close>).
\<close>

theorem get_valid_predictions_background:
  "(get_valid_predictions dec roi deltas (k, pred) L = Some (boxes, labels) \<longrightarrow>
      (\<exists>pm idx bs.
         get_valid_label_indices (k, pred) L = Some (pm, idx) \<and> distinct idx \<and>
         set idx = {(int b, int i) | b i. b < length pred \<and> i < length (pred ! b) \<and>
                      argmax_row (pred ! b ! i) \<noteq> Some (int L - 1)} \<and>
         boxes = [bs] \<and> length bs = length idx \<and>
         labels = [map (\<lambda>(b, i). pred ! nat b ! nat i) idx])) \<and>
   (0 < k \<and> (\<forall>r\<in>set pred. \<forall>s\<in>set r. argmax_row s = Some (int L - 1)) \<longrightarrow>
      get_valid_predictions dec roi deltas (k, pred) L = Some ([[]], [[]]))"
proof (intro conjI impI)
  assume ret: "get_valid_predictions dec roi deltas (k, pred) L = Some (boxes, labels)"
  from get_valid_predictions_SomeD [OF ret]
  obtain pm idx vd vroi vpb where
    vi: "get_valid_label_indices (k, pred) L = Some (pm, idx)"
    and rs: "tf_reshape_boxes (concat (map (\<lambda>(b, i). deltas ! nat b ! nat i) idx)) (length idx) L
             = Some vd"
    and sc: "tf_scatter_nd2 (zip (tf_range (length idx)) (map (\<lambda>(b, i). pm ! nat b ! nat i) idx))
             (map (\<lambda>(b, i). roi ! nat b ! nat i) idx) (length idx) L = Some vroi"
    and gb: "get_bboxes_from_deltas dec vroi vd = Some vpb"
    and boxes: "boxes = [vpb]"
    and labels: "labels = [map (\<lambda>(b, i). pred ! nat b ! nat i) idx]"
    by blast
  have "length vd = length idx"
    using rs by (auto simp: tf_reshape_boxes_def split: if_splits)
  moreover have "vpb = map (\<lambda>(as, ds). map (\<lambda>(a, d). dec a d) (zip as ds)) (zip vroi vd)"
    using gb by (auto simp: get_bboxes_from_deltas_def split: if_splits)
  ultimately have "length vpb = length idx"
    using tf_scatter_nd2_shape(1) [OF sc] by simp
  moreover have "distinct idx"
    using vi by (simp add: get_valid_label_indices_Some_iff distinct_tf_where2)
  ultimately show "\<exists>pm idx bs.
         get_valid_label_indices (k, pred) L = Some (pm, idx) \<and> distinct idx \<and>
         set idx = {(int b, int i) | b i. b < length pred \<and> i < length (pred ! b) \<and>
                      argmax_row (pred ! b ! i) \<noteq> Some (int L - 1)} \<and>
         boxes = [bs] \<and> length bs = length idx \<and>
         labels = [map (\<lambda>(b, i). pred ! nat b ! nat i) idx]"
    using vi set_valid_label_indices [OF vi] boxes labels by blast
next
  assume "0 < k \<and> (\<forall>r\<in>set pred. \<forall>s\<in>set r. argmax_row s = Some (int L - 1))"
  then show "get_valid_predictions dec roi deltas (k, pred) L = Some ([[]], [[]])"
    by (intro get_valid_predictions_all_background) simp_all
qed

theorem get_valid_predictions_background_witness:
  "get_valid_predictions (\<lambda>r d. r + d) [[Box 1 1 5 5, Box 2 2 7 7, Box 3 3 4 4]]
     [[[1, 2, 3, 4, 5, 6, 7, 8], [11, 12, 13, 14, 15, 16, 17, 18], [21, 22, 23, 24, 25, 26, 27, 28]]]
     (2, [[[5, 1 :: int], [2, 7], [9, 9]]]) 2
   = Some ([[[Box 2 3 8 9, Box 5 6 7 8], [Box 24 25 27 28, Box 25 26 27 28]]], [[[5, 1], [9, 9]]]) \<and>
   (\<exists>pm idx.
      get_valid_label_indices (2, [[[5, 1 :: int], [2, 7], [9, 9]]]) 2 = Some (pm, idx) \<and>
      distinct idx \<and> length idx = 2 \<and> (0, 0) \<in> set idx \<and> (0, 1) \<notin> set idx \<and> (0, 2) \<in> set idx) \<and>
   get_valid_predictions (\<lambda>r d. r + d) [[Box 1 1 5 5, Box 2 2 7 7, Box 3 3 4 4]]
     [[[1, 2, 3, 4, 5, 6, 7, 8], [11, 12, 13, 14, 15, 16, 17, 18], [21, 22, 23, 24, 25, 26, 27, 28]]]
     (2, [[[0, 1 :: int], [2, 7], [8, 9]]]) 2
   = Some ([[]], [[]])"
proof -
  let ?dec = "\<lambda>(r :: int box) d. r + d"
  let ?roi = "[[Box 1 1 5 5, Box 2 2 7 7, Box 3 3 4 (4 :: int)]]"
  let ?del = "[[[1, 2, 3, 4, 5, 6, 7, 8], [11, 12, 13, 14, 15, 16, 17, 18],
                [21, 22, 23, 24, 25, 26, 27, 28 :: int]]]"
  let ?pred = "[[[5, 1 :: int], [2, 7], [9, 9]]]"
  let ?bg = "[[[0, 1 :: int], [2, 7], [8, 9]]]"
  let ?B = "[[[Box 2 3 8 9, Box 5 6 7 8], [Box 24 25 27 28, Box 25 26 27 (28 :: int)]]]"
  let ?L = "[[[5, 1 :: int], [9, 9]]]"
  have ret: "get_valid_predictions ?dec ?roi ?del (2, ?pred) 2 = Some (?B, ?L)"
    by code_simp
  have am: "argmax_row [5, 1 :: int] = Some 0" "argmax_row [2, 7 :: int] = Some 1"
    "argmax_row [9, 9 :: int] = Some 0" "argmax_row [0, 1 :: int] = Some 1"
    "argmax_row [8, 9 :: int] = Some 1"
    by code_simp+
  have bg: "\<forall>r\<in>set ?bg. \<forall>s\<in>set r. argmax_row s = Some (int 2 - 1)"
    using am by simp
  from get_valid_predictions_background [of ?dec ?roi ?del 2 ?pred 2 ?B ?L] ret
  obtain pm idx bs where vi: "get_valid_label_indices (2, ?pred) 2 = Some (pm, idx)"
    and di: "distinct idx"
    and set: "set idx = {(int b, int i) | b i. b < length ?pred \<and> i < length (?pred ! b) \<and>
                      argmax_row (?pred ! b ! i) \<noteq> Some (int 2 - 1)}"
    and bs: "?B = [bs]" "length bs = length idx"
    by blast
  have mem: "(0, 0) \<in> set idx" "(0, 1) \<notin> set idx" "(0, 2) \<in> set idx"
  proof -
    have "(int 0, int 0) \<in> set idx" "(int 0, int 2) \<in> set idx"
      unfolding set using am by auto
    then show "(0, 0) \<in> set idx" "(0, 2) \<in> set idx"
      by simp_all
    show "(0, 1) \<notin> set idx"
    proof
      assume "(0, 1) \<in> set idx"
      then obtain b i where "int b = 0" "int i = 1" "argmax_row (?pred ! b ! i) \<noteq> Some (int 2 - 1)"
        unfolding set by auto
      then show False
        using am by simp
    qed
  qed
  from bs have "length idx = 2"
    by auto
  with vi di mem have first: "\<exists>pm idx.
      get_valid_label_indices (2, ?pred) 2 = Some (pm, idx) \<and>
      distinct idx \<and> length idx = 2 \<and> (0, 0) \<in> set idx \<and> (0, 1) \<notin> set idx \<and> (0, 2) \<in> set idx"
    by blast
  from get_valid_predictions_background [of ?dec ?roi ?del 2 ?bg 2] bg
  have second: "get_valid_predictions ?dec ?roi ?del (2, ?bg) 2 = Some ([[]], [[]])"
    by simp
  from ret first second show ?thesis
    by blast
qed

text \<open>
  Claim C6. Let the decoder return, on delta predictions whose rows hold
  \<open>total_labels * 4\<close> values. Then its outputs have one entry for every kept proposal,
  in the order of \<open>valid_label_indices\<close>. The box returned for the proposal at \<open>(b, i)\<close>
  in column \<open>c\<close> is \<open>decode_box reference delta\<close>, where the delta is the \<open>c\<close>-th slice of
  four values of the proposal's own delta row and the reference is the proposal's own
  box exactly in the column of its arg-max class; in every other column the reference
  is the all-zero box left by the scatter of line 192. The returned score vectors are
  the kept proposals' rows of the score input, unchanged.
\<close>

theorem get_valid_predictions_decodes_predicted_class:
  assumes ret: "get_valid_predictions dec roi deltas (k, pred) L = Some (boxes, labels)"
    and shape: "\<forall>r\<in>set deltas. \<forall>d\<in>set r. length d = L * 4"
  shows "\<exists>pm idx.
           get_valid_label_indices (k, pred) L = Some (pm, idx) \<and>
           boxes = [map (\<lambda>(b, i). map (\<lambda>c.
                      dec (if argmax_row (pred ! nat b ! nat i) = Some (int c)
                           then roi ! nat b ! nat i else 0)
                          (boxes_of_flat (deltas ! nat b ! nat i) ! c)) [0..<L]) idx] \<and>
           labels = [map (\<lambda>(b, i). pred ! nat b ! nat i) idx]"
proof -
  from get_valid_predictions_SomeD [OF ret]
  obtain pm idx vd vroi vpb where
    vi: "get_valid_label_indices (k, pred) L = Some (pm, idx)"
    and gd: "tf_gather_nd2 deltas idx = Some (map (\<lambda>(b, i). deltas ! nat b ! nat i) idx)"
    and rs: "tf_reshape_boxes (concat (map (\<lambda>(b, i). deltas ! nat b ! nat i) idx)) (length idx) L
             = Some vd"
    and sc: "tf_scatter_nd2 (zip (tf_range (length idx)) (map (\<lambda>(b, i). pm ! nat b ! nat i) idx))
             (map (\<lambda>(b, i). roi ! nat b ! nat i) idx) (length idx) L = Some vroi"
    and gb: "get_bboxes_from_deltas dec vroi vd = Some vpb"
    and boxes: "boxes = [vpb]"
    and labels: "labels = [map (\<lambda>(b, i). pred ! nat b ! nat i) idx]"
    by blast
  let ?K = "length idx"
  let ?D = "map (\<lambda>(b, i). deltas ! nat b ! nat i) idx"
  have Drow: "\<forall>r\<in>set ?D. length r = L * 4"
  proof
    fix r assume "r \<in> set ?D"
    then obtain b i where bi: "(b, i) \<in> set idx" and r: "r = deltas ! nat b ! nat i"
      by auto
    from gd bi have "nat b < length deltas" "nat i < length (deltas ! nat b)"
      by (auto simp: tf_gather_nd2_Some_iff)
    with shape r show "length r = L * 4"
      by (meson nth_mem)
  qed
  have vd: "vd = map (\<lambda>k. boxes_of_flat (take (L * 4) (drop (k * (L * 4)) (concat ?D)))) [0..<?K]"
    using rs by (auto simp: tf_reshape_boxes_def split: if_splits)
  have vdk: "vd ! k = boxes_of_flat (?D ! k)" if "k < ?K" for k
    using that take_drop_concat_row [OF Drow, of k] by (simp add: vd)
  have vdlen: "length vd = ?K"
    by (simp add: vd)
  have vdrow: "length (vd ! k) = L" if "k < ?K" for k
  proof -
    from that have "?D ! k \<in> set ?D"
      by (intro nth_mem) simp
    with Drow have "length (?D ! k) = L * 4"
      by blast
    then show ?thesis
      by (simp add: vdk [OF that] length_boxes_of_flat)
  qed
  have ll: "length (map (\<lambda>(b, i). pm ! nat b ! nat i) idx) = ?K"
    by simp
  note lk = tf_scatter_nd2_lookup [OF sc ll]
  note vroilen = tf_scatter_nd2_shape [OF sc]
  have vpb: "vpb = map (\<lambda>(as, ds). map (\<lambda>(a, d). dec a d) (zip as ds)) (zip vroi vd)"
    using gb by (auto simp: get_bboxes_from_deltas_def split: if_splits)
  have "vpb = map (\<lambda>(b, i). map (\<lambda>c.
                      dec (if argmax_row (pred ! nat b ! nat i) = Some (int c)
                           then roi ! nat b ! nat i else 0)
                          (boxes_of_flat (deltas ! nat b ! nat i) ! c)) [0..<L]) idx"
  proof (rule nth_equalityI)
    show "length vpb = length (map (\<lambda>(b, i). map (\<lambda>c.
                      dec (if argmax_row (pred ! nat b ! nat i) = Some (int c)
                           then roi ! nat b ! nat i else 0)
                          (boxes_of_flat (deltas ! nat b ! nat i) ! c)) [0..<L]) idx)"
      by (simp add: vpb vdlen vroilen)
  next
    fix k assume "k < length vpb"
    then have k: "k < ?K"
      by (simp add: vpb vdlen vroilen)
    obtain b i where bi: "idx ! k = (b, i)"
      by (cases "idx ! k")
    with k have mem: "(b, i) \<in> set idx"
      by (metis nth_mem)
    from valid_label_indices_in_range [OF vi mem]
    have am: "argmax_row (pred ! nat b ! nat i) = Some (pm ! nat b ! nat i)"
      by simp
    have rowk: "vpb ! k = map (\<lambda>c. dec (vroi ! k ! c) (vd ! k ! c)) [0..<L]"
      using k vdrow [OF k] vroilen(2) [OF k]
      by (simp add: vpb vdlen vroilen(1) list_eq_iff_nth_eq)
    have "map (\<lambda>c. dec (vroi ! k ! c) (vd ! k ! c)) [0..<L]
          = map (\<lambda>c. dec (if argmax_row (pred ! nat b ! nat i) = Some (int c)
                           then roi ! nat b ! nat i else 0)
                          (boxes_of_flat (deltas ! nat b ! nat i) ! c)) [0..<L]"
      using k bi lk [of k] vdk [OF k] am by auto
    with rowk show "vpb ! k = map (\<lambda>(b, i). map (\<lambda>c.
                      dec (if argmax_row (pred ! nat b ! nat i) = Some (int c)
                           then roi ! nat b ! nat i else 0)
                          (boxes_of_flat (deltas ! nat b ! nat i) ! c)) [0..<L]) idx ! k"
      using k bi by simp
  qed
  with vi boxes labels show ?thesis
    by blast
qed

theorem get_valid_predictions_decodes_predicted_class_witness:
  "get_valid_predictions (\<lambda>r d. r + d) [[Box 1 1 5 5, Box 2 2 7 7, Box 3 3 4 4]]
     [[[1, 2, 3, 4, 5, 6, 7, 8], [11, 12, 13, 14, 15, 16, 17, 18], [21, 22, 23, 24, 25, 26, 27, 28]]]
     (2, [[[5, 1 :: int], [2, 7], [9, 9]]]) 2
   = Some ([[[Box 2 3 8 9, Box 5 6 7 8], [Box 24 25 27 28, Box 25 26 27 28]]], [[[5, 1], [9, 9]]]) \<and>
   (\<exists>pm idx.
      get_valid_label_indices (2, [[[5, 1 :: int], [2, 7], [9, 9]]]) 2 = Some (pm, idx) \<and>
      [[[Box 2 3 8 9, Box 5 6 7 8], [Box 24 25 27 28, Box 25 26 27 (28 :: int)]]]
        = [map (\<lambda>(b, i). map (\<lambda>c.
             (if argmax_row ([[[5, 1 :: int], [2, 7], [9, 9]]] ! nat b ! nat i) = Some (int c)
              then [[Box 1 1 5 5, Box 2 2 7 7, Box 3 3 4 4]] ! nat b ! nat i else 0)
             + boxes_of_flat ([[[1, 2, 3, 4, 5, 6, 7, 8], [11, 12, 13, 14, 15, 16, 17, 18],
                                [21, 22, 23, 24, 25, 26, 27, 28]]] ! nat b ! nat i) ! c)
             [0..<2]) idx] \<and>
      [[[5, 1], [9, 9]]] = [map (\<lambda>(b, i). [[[5, 1 :: int], [2, 7], [9, 9]]] ! nat b ! nat i) idx])"
proof -
  have ret: "get_valid_predictions (\<lambda>r d. r + d) [[Box 1 1 5 5, Box 2 2 7 7, Box 3 3 4 4]]
     [[[1, 2, 3, 4, 5, 6, 7, 8], [11, 12, 13, 14, 15, 16, 17, 18], [21, 22, 23, 24, 25, 26, 27, 28]]]
     (2, [[[5, 1 :: int], [2, 7], [9, 9]]]) 2
   = Some ([[[Box 2 3 8 9, Box 5 6 7 8], [Box 24 25 27 28, Box 25 26 27 28]]], [[[5, 1], [9, 9]]])"
    by code_simp
  have shape: "\<forall>r\<in>set [[[1, 2, 3, 4, 5, 6, 7, 8], [11, 12, 13, 14, 15, 16, 17, 18],
                           [21, 22, 23, 24, 25, 26, 27, 28 :: int]]]. \<forall>d\<in>set r. length d = 2 * 4"
    by simp
  from get_valid_predictions_decodes_predicted_class [OF ret shape] ret
  show ?thesis
    by blast
qed

section \<open>The background class\<close>

text \<open>
  Claim C10. Both components take \<open>total_labels - 1\<close> for the background: the last
  \<open>total_neg_bboxes\<close> labels of every image in the Target Assigner are
  \<open>total_labels - 1\<close>, and the Inference Decoder drops a proposal exactly when its
  arg-max class is \<open>total_labels - 1\<close>. With more than one class the index 0 is not
  the background of either: no negative slot has the label 0, and a proposal whose
  arg-max class is 0 is kept.
\<close>

theorem background_is_last_class:
  "(RoIDelta_targets enc hp (roi, gtb, gtl, gti) = Some (gbm, glm, d) \<longrightarrow>
      (\<forall>b<length roi.
         drop (length (gti ! b)) (glm ! b)
           = replicate (hp_total_neg_bboxes hp) (int (hp_total_labels hp) - 1) \<and>
         (1 < hp_total_labels hp \<longrightarrow> 0 \<notin> set (drop (length (gti ! b)) (glm ! b))))) \<and>
   (get_valid_label_indices (k, pred) (hp_total_labels hp) = Some (pm, idx) \<longrightarrow>
      (\<forall>b<length pred. \<forall>i<length (pred ! b).
         ((int b, int i) \<notin> set idx)
           = (argmax_row (pred ! b ! i) = Some (int (hp_total_labels hp) - 1)) \<and>
         (1 < hp_total_labels hp \<and> argmax_row (pred ! b ! i) = Some 0
            \<longrightarrow> (int b, int i) \<in> set idx)))"
proof (intro conjI impI allI)
  fix b
  assume tg: "RoIDelta_targets enc hp (roi, gtb, gtl, gti) = Some (gbm, glm, d)" and b: "b < length roi"
  show row: "drop (length (gti ! b)) (glm ! b)
           = replicate (hp_total_neg_bboxes hp) (int (hp_total_labels hp) - 1)"
    using RoIDelta_targets_SomeD(7) [OF tg b] by simp
  assume "1 < hp_total_labels hp"
  then show "0 \<notin> set (drop (length (gti ! b)) (glm ! b))"
    unfolding row by auto
next
  fix b i
  assume vi: "get_valid_label_indices (k, pred) (hp_total_labels hp) = Some (pm, idx)"
    and bi: "b < length pred" "i < length (pred ! b)"
  then show eq: "((int b, int i) \<notin> set idx)
           = (argmax_row (pred ! b ! i) = Some (int (hp_total_labels hp) - 1))"
    unfolding set_valid_label_indices [OF vi] by auto
  assume "1 < hp_total_labels hp \<and> argmax_row (pred ! b ! i) = Some 0"
  then have "argmax_row (pred ! b ! i) \<noteq> Some (int (hp_total_labels hp) - 1)"
    by simp
  with eq show "(int b, int i) \<in> set idx"
    by simp
qed

theorem background_is_last_class_witness:
  "RoIDelta_targets (\<lambda>r t. t + r)
     \<lparr>hp_total_pos_bboxes = 2, hp_total_neg_bboxes = 2, hp_nms_topn = 3, hp_total_labels = 5,
      hp_pooling_size = (7, 7)\<rparr>
     ([[Box 1 1 5 5, Box 2 2 7 7, 0, 0]], [[Box 2 2 6 (6::int)]], [[3]], [[0, 0]])
   = Some ([[Box 2 2 6 6, Box 2 2 6 6, 0, 0]], [[3, 3, 4, 4]],
           [[Box 3 3 11 11, Box 4 4 13 13, 0, 0]]) \<and>
   drop 2 [3, 3, 4, 4 :: int] = [4, 4] \<and>
   get_valid_label_indices (5, [[[0, 1, 0, 0, 9 :: int], [7, 1, 0, 0, 2]]]) 5
     = Some ([[4, 0]], [(0, 1)]) \<and>
   (0, 0) \<notin> set [(0, 1 :: int) :: int \<times> int] \<and>
   argmax_row [0, 1, 0, 0, 9 :: int] = Some 4 \<and>
   (0, 1) \<in> set [(0, 1 :: int) :: int \<times> int] \<and>
   argmax_row [7, 1, 0, 0, 2 :: int] \<noteq> Some 4 \<and>
   0 \<notin> set (drop 2 [3, 3, 4, 4 :: int])"
proof -
  let ?hp = "\<lparr>hp_total_pos_bboxes = 2, hp_total_neg_bboxes = 2, hp_nms_topn = 3,
              hp_total_labels = 5, hp_pooling_size = (7, 7)\<rparr>"
  let ?roi = "[[Box 1 1 5 5, Box 2 2 7 7, 0, 0 :: int box]]"
  let ?gti = "[[0, 0 :: int]]"
  let ?gbm = "[[Box 2 2 6 6, Box 2 2 6 6, 0, 0 :: int box]]"
  let ?glm = "[[3, 3, 4, 4 :: int]]"
  let ?d = "[[Box 3 3 11 11, Box 4 4 13 13, 0, 0 :: int box]]"
  let ?pred = "[[[0, 1, 0, 0, 9 :: int], [7, 1, 0, 0, 2]]]"
  let ?idx = "[(0, 1 :: int) :: int \<times> int]"
  have tg: "RoIDelta_targets (\<lambda>r t. t + r) ?hp (?roi, [[Box 2 2 6 (6::int)]], [[3]], ?gti)
   = Some (?gbm, ?glm, ?d)"
    by code_simp
  have vi: "get_valid_label_indices (5, ?pred) (hp_total_labels ?hp) = Some ([[4, 0]], ?idx)"
    by code_simp
  note B = background_is_last_class [of "\<lambda>r t. t + r" ?hp ?roi "[[Box 2 2 6 (6::int)]]" "[[3]]"
      ?gti ?gbm ?glm ?d 5 ?pred "[[4, 0]]" ?idx]
  from B tg have neg: "\<forall>b<length ?roi. drop (length (?gti ! b)) (?glm ! b)
           = replicate (hp_total_neg_bboxes ?hp) (int (hp_total_labels ?hp) - 1)"
    and nz: "\<forall>b<length ?roi. 1 < hp_total_labels ?hp
               \<longrightarrow> 0 \<notin> set (drop (length (?gti ! b)) (?glm ! b))"
    by blast+
  from B vi have dec: "\<forall>b<length ?pred. \<forall>i<length (?pred ! b).
         ((int b, int i) \<notin> set ?idx)
           = (argmax_row (?pred ! b ! i) = Some (int (hp_total_labels ?hp) - 1))"
    by blast
  from neg have 1: "drop 2 [3, 3, 4, 4 :: int] = [4, 4]"
    by (simp add: numeral_2_eq_2)
  have "((int 0, int 0) \<notin> set ?idx) = (argmax_row (?pred ! 0 ! 0) = Some (int 5 - 1))"
    "((int 0, int 1) \<notin> set ?idx) = (argmax_row (?pred ! 0 ! 1) = Some (int 5 - 1))"
    using dec [rule_format, of 0 0] dec [rule_format, of 0 1] by simp_all
  then have 2: "(0, 0) \<notin> set ?idx" "argmax_row [0, 1, 0, 0, 9 :: int] = Some 4"
    "(0, 1) \<in> set ?idx" "argmax_row [7, 1, 0, 0, 2 :: int] \<noteq> Some 4"
    by simp_all
  from nz [rule_format, of 0] have 3: "0 \<notin> set (drop 2 [3, 3, 4, 4 :: int])"
    by (simp add: numeral_2_eq_2)
  from tg vi 1 2 3 show ?thesis
    by simp
qed

section \<open>The gradient boundary\<close>

lemma flat_of_box_map_box: "flat_of_box (map_box f b) = map f (flat_of_box b)"
  by (cases b) simp

lemma tf_stop_gradient_zero: "tf_stop_gradient 0 = 0"
  by (simp add: tf_stop_gradient_def zero_dual_def)

lemma tangent_tf_stop_gradient: "tangent (tf_stop_gradient x) = 0"
  by (simp add: tf_stop_gradient_def)

lemma RoIBBox_call_SomeD:
  assumes "RoIBBox_call sg dec nms select hp (rpn_bbox_deltas, rpn_labels, anchors, gt_boxes)
             = Some (roi_bboxes, gt_box_indices)"
  shows "\<exists>r. roi_bboxes = map (map (map_box sg)) r"
  using assms unfolding RoIBBox_call_def
  by (auto simp: Let_def split: bind_splits prod.splits)

text \<open>
  Without lines 64 and 116, that is with the identity for \<open>stop_gradient\<close>, the
  tangents of the inputs reach the outputs of both layers.
\<close>

lemma RoIBBox_call_tangent_without_line_64:
  "RoIBBox_call id (\<lambda>a d. d + a) (\<lambda>b s n m. map (\<lambda>r. take n (map hd r)) b)
     (\<lambda>n g p q. ([[1, 0]], [[0]], [[0, 0]]))
     \<lparr>hp_total_pos_bboxes = 2, hp_total_neg_bboxes = 1, hp_nms_topn = 2, hp_total_labels = 2,
      hp_pooling_size = (7, 7)\<rparr>
     ([[[[Dual 1 1, Dual 1 2, Dual 1 3, Dual 1 4, Dual 2 5, Dual 2 6, Dual 2 7, Dual 2 (8::int)]]]],
      [[[[Dual 5 1, Dual 3 1]]]],
      [[Box (Dual 0 0) (Dual 0 0) (Dual 1 0) (Dual 1 0), Box (Dual 1 0) (Dual 1 0) (Dual 2 0) (Dual 2 0)]],
      [[Box (Dual 2 0) (Dual 2 0) (Dual 3 0) (Dual 3 0)]])
   = Some ([[Box (Dual 3 5) (Dual 3 6) (Dual 4 7) (Dual 4 8),
             Box (Dual 1 1) (Dual 1 2) (Dual 2 3) (Dual 2 4), 0]], [[0, 0]])"
  by code_simp

lemma RoIDelta_call_tangent_without_line_116:
  "RoIDelta_call id (\<lambda>r t. t + r)
     \<lparr>hp_total_pos_bboxes = 1, hp_total_neg_bboxes = 1, hp_nms_topn = 2, hp_total_labels = 2,
      hp_pooling_size = (7, 7)\<rparr>
     ([[Box (Dual 1 1) (Dual 1 2) (Dual 5 3) (Dual 5 (4::int)), 0]],
      [[Box (Dual 2 0) (Dual 2 0) (Dual 6 0) (Dual 6 0)]], [[0]], [[0]])
   = Some ([[[Dual 3 1, Dual 3 2, Dual 11 3, Dual 11 4, 0, 0, 0, 0],
             [0, 0, 0, 0, 0, 0, 0, 0]]],
           [[[1, 0], [0, 1]]])"
  by code_simp

text \<open>
  Claim C8. Let the float tensors hold dual numbers, so that \<^verbatim>\<open>tf.stop_gradient\<close> is
  \<open>tf_stop_gradient\<close>. Whatever the helpers, the hyper-parameters and the inputs are,
  and whatever tangents the inputs carry: when the Proposal Selector returns, every
  coordinate of every box of its Proposal Batch has the tangent zero, and when the
  Target Assigner returns, every value of its per-class deltas has the tangent zero.
  The other output of each layer, the GT Index Map and the per-class labels, is an
  integer tensor: its elements are of type \<open>int\<close> and carry no tangent. So no
  derivative passes from an output of the two layers to an input.
\<close>

theorem layer_outputs_gradient_blocked:
  "(RoIBBox_call tf_stop_gradient decode_box nms select hp
        (rpn_bbox_deltas, rpn_labels, anchors, gt_boxes) = Some (roi_bboxes, gt_box_indices) \<longrightarrow>
      (\<forall>row\<in>set roi_bboxes. \<forall>bbox\<in>set row. \<forall>x\<in>set (flat_of_box bbox). tangent x = 0)) \<and>
   (RoIDelta_call tf_stop_gradient encode_box hp'
        (roi, gt_boxes', gt_labels, gt_indices) = Some (roi_bbox_deltas, roi_bbox_labels) \<longrightarrow>
      (\<forall>slots\<in>set roi_bbox_deltas. \<forall>row\<in>set slots. \<forall>x\<in>set row. tangent x = 0))"
proof (intro conjI impI)
  assume "RoIBBox_call tf_stop_gradient decode_box nms select hp
        (rpn_bbox_deltas, rpn_labels, anchors, gt_boxes) = Some (roi_bboxes, gt_box_indices)"
  then obtain r where "roi_bboxes = map (map (map_box tf_stop_gradient)) r"
    using RoIBBox_call_SomeD by blast
  then show "\<forall>row\<in>set roi_bboxes. \<forall>bbox\<in>set row. \<forall>x\<in>set (flat_of_box bbox). tangent x = 0"
    by (auto simp: flat_of_box_map_box tangent_tf_stop_gradient)
next
  assume "RoIDelta_call tf_stop_gradient encode_box hp'
        (roi, gt_boxes', gt_labels, gt_indices) = Some (roi_bbox_deltas, roi_bbox_labels)"
  from RoIDelta_call_SomeD [OF this]
  obtain t where "roi_bbox_deltas
      = map (map (\<lambda>row. map tf_stop_gradient (concat (map flat_of_box row)))) t"
    by blast
  then show "\<forall>slots\<in>set roi_bbox_deltas. \<forall>row\<in>set slots. \<forall>x\<in>set row. tangent x = 0"
    by (auto simp: tangent_tf_stop_gradient)
qed

theorem layer_outputs_gradient_blocked_witness:
  "RoIBBox_call tf_stop_gradient (\<lambda>a d. d + a) (\<lambda>b s n m. map (\<lambda>r. take n (map hd r)) b)
     (\<lambda>n g p q. ([[1, 0]], [[0]], [[0, 0]]))
     \<lparr>hp_total_pos_bboxes = 2, hp_total_neg_bboxes = 1, hp_nms_topn = 2, hp_total_labels = 2,
      hp_pooling_size = (7, 7)\<rparr>
     ([[[[Dual 1 1, Dual 1 2, Dual 1 3, Dual 1 4, Dual 2 5, Dual 2 6, Dual 2 7, Dual 2 (8::int)]]]],
      [[[[Dual 5 1, Dual 3 1]]]],
      [[Box (Dual 0 0) (Dual 0 0) (Dual 1 0) (Dual 1 0), Box (Dual 1 0) (Dual 1 0) (Dual 2 0) (Dual 2 0)]],
      [[Box (Dual 2 0) (Dual 2 0) (Dual 3 0) (Dual 3 0)]])
   = Some ([[Box (Dual 3 0) (Dual 3 0) (Dual 4 0) (Dual 4 0),
             Box (Dual 1 0) (Dual 1 0) (Dual 2 0) (Dual 2 0), 0]], [[0, 0]]) \<and>
   map tangent (concat (map flat_of_box
     [Box (Dual 3 0) (Dual 3 0) (Dual 4 0) (Dual 4 0),
      Box (Dual 1 0) (Dual 1 0) (Dual 2 0) (Dual 2 0), 0 :: int dual box]))
   = [0, 0, 0, 0, 0, 0, 0, 0, 0, 0, 0, 0] \<and>
   RoIDelta_call tf_stop_gradient (\<lambda>r t. t + r)
     \<lparr>hp_total_pos_bboxes = 1, hp_total_neg_bboxes = 1, hp_nms_topn = 2, hp_total_labels = 2,
      hp_pooling_size = (7, 7)\<rparr>
     ([[Box (Dual 1 1) (Dual 1 2) (Dual 5 3) (Dual 5 (4::int)), 0]],
      [[Box (Dual 2 0) (Dual 2 0) (Dual 6 0) (Dual 6 0)]], [[0]], [[0]])
   = Some ([[[Dual 3 0, Dual 3 0, Dual 11 0, Dual 11 0, 0, 0, 0, 0],
             [0, 0, 0, 0, 0, 0, 0, 0]]],
           [[[1, 0], [0, 1]]]) \<and>
   map tangent [Dual 3 0, Dual 3 0, Dual 11 0, Dual 11 0, 0, 0, 0, 0 :: int dual]
   = [0, 0, 0, 0, 0, 0, 0, 0]"
proof -
  let ?R = "[[Box (Dual 3 0) (Dual 3 0) (Dual 4 0) (Dual 4 0),
              Box (Dual 1 0) (Dual 1 0) (Dual 2 0) (Dual 2 0), 0 :: int dual box]]"
  let ?D = "[[[Dual 3 0, Dual 3 0, Dual 11 0, Dual 11 0, 0, 0, 0, 0 :: int dual],
              [0, 0, 0, 0, 0, 0, 0, 0]]]"
  have r1: "RoIBBox_call tf_stop_gradient (\<lambda>a d. d + a) (\<lambda>b s n m. map (\<lambda>r. take n (map hd r)) b)
     (\<lambda>n g p q. ([[1, 0]], [[0]], [[0, 0]]))
     \<lparr>hp_total_pos_bboxes = 2, hp_total_neg_bboxes = 1, hp_nms_topn = 2, hp_total_labels = 2,
      hp_pooling_size = (7, 7)\<rparr>
     ([[[[Dual 1 1, Dual 1 2, Dual 1 3, Dual 1 4, Dual 2 5, Dual 2 6, Dual 2 7, Dual 2 (8::int)]]]],
      [[[[Dual 5 1, Dual 3 1]]]],
      [[Box (Dual 0 0) (Dual 0 0) (Dual 1 0) (Dual 1 0), Box (Dual 1 0) (Dual 1 0) (Dual 2 0) (Dual 2 0)]],
      [[Box (Dual 2 0) (Dual 2 0) (Dual 3 0) (Dual 3 0)]])
   = Some (?R, [[0, 0]])"
    by code_simp
  have r2: "RoIDelta_call tf_stop_gradient (\<lambda>r t. t + r)
     \<lparr>hp_total_pos_bboxes = 1, hp_total_neg_bboxes = 1, hp_nms_topn = 2, hp_total_labels = 2,
      hp_pooling_size = (7, 7)\<rparr>
     ([[Box (Dual 1 1) (Dual 1 2) (Dual 5 3) (Dual 5 (4::int)), 0]],
      [[Box (Dual 2 0) (Dual 2 0) (Dual 6 0) (Dual 6 0)]], [[0]], [[0]])
   = Some (?D, [[[1, 0], [0, 1]]])"
    by code_simp
  note G = layer_outputs_gradient_blocked
  from G [THEN conjunct1, THEN mp, OF r1]
  have t1: "\<forall>row\<in>set ?R. \<forall>bbox\<in>set row. \<forall>x\<in>set (flat_of_box bbox). tangent x = 0" .
  from G [THEN conjunct2, THEN mp, OF r2]
  have t2: "\<forall>slots\<in>set ?D. \<forall>row\<in>set slots. \<forall>x\<in>set row. tangent x = 0" .
  have "map tangent (concat (map flat_of_box (?R ! 0))) = replicate 12 0"
    using t1 by (intro replicate_eqI) (auto simp: length_flat_of_box)
  then have e1: "map tangent (concat (map flat_of_box (?R ! 0))) = [0, 0, 0, 0, 0, 0, 0, 0, 0, 0, 0, 0]"
    by (simp add: numeral_eq_Suc)
  have "map tangent (?D ! 0 ! 0) = replicate 8 0"
    using t2 by (intro replicate_eqI) auto
  then have e2: "map tangent (?D ! 0 ! 0) = [0, 0, 0, 0, 0, 0, 0, 0]"
    by (simp add: numeral_eq_Suc)
  from r1 e1 r2 e2 show ?thesis
    by simp
qed

end
